theory Spec2Isabelle
  imports Complex_Main "HOL-Library.Log_Nat"
begin

section \<open>Faults\<close>

text \<open>
  The Python faults the simulation can run into.  No module of the repository raises or
  catches an exception of its own; the only faults are those of the interpreter: reading
  \<open>.row\<close> of \<open>None\<close> (AttributeError), dividing by zero (ZeroDivisionError) and
  dividing two integers whose quotient is too large for a float (OverflowError).  A
  fault is never caught, so it ends the call that meets it and every caller up to
  \<open>Simulation.run\<close>: an operation that can meet one returns \<open>error + 'a\<close>.
\<close>

datatype error = AttributeError | ZeroDivisionError | OverflowError

section \<open>location.py\<close>

record location =
  row :: int
  column :: int

definition manhattan_distance :: "location \<Rightarrow> location \<Rightarrow> int" where
  "manhattan_distance origin' destination' =
     \<bar>row destination' - row origin'\<bar> + \<bar>column destination' - column origin'\<bar>"

text \<open>
  A driver's location becomes \<open>None\<close> when a drive is ended without a destination, and
  the event layer hands the driver's location on to the monitor.  Where the source calls
  \<open>manhattan_distance\<close> on such a value, \<open>destination.row\<close> or \<open>origin.row\<close> faults.
\<close>

fun manhattan_distance_opt :: "location option \<Rightarrow> location option \<Rightarrow> error + int" where
  "manhattan_distance_opt (Some a) (Some b) = Inr (manhattan_distance a b)"
| "manhattan_distance_opt _ _ = Inl AttributeError"

section \<open>rider.py\<close>

datatype rider_status = WAITING | CANCELLED | SATISFIED

record rider =
  rider_id :: string
  origin :: location
  rider_destination :: location
  patience :: int
  status :: rider_status

definition Rider :: "string \<Rightarrow> location \<Rightarrow> location \<Rightarrow> int \<Rightarrow> rider" where
  "Rider i org dest pat =
     \<lparr>rider_id = i, origin = org, rider_destination = dest, patience = pat, status = WAITING\<rparr>"

text \<open>\<open>Rider.__eq__\<close>: all five attributes are compared.\<close>

definition rider_eq :: "rider \<Rightarrow> rider \<Rightarrow> bool" where
  "rider_eq a b =
     (rider_id a = rider_id b \<and> origin a = origin b \<and>
      rider_destination a = rider_destination b \<and> patience a = patience b \<and>
      status a = status b)"

section \<open>driver.py\<close>

record driver =
  driver_id :: string
  location :: "location option"
  speed :: int
  is_idle :: bool
  destination :: "location option"

definition Driver :: "string \<Rightarrow> location \<Rightarrow> int \<Rightarrow> driver" where
  "Driver identifier loc spd =
     \<lparr>driver_id = identifier, location = Some loc, speed = spd, is_idle = True,
      destination = None\<rparr>"

text \<open>\<open>Driver.__eq__\<close>: identifier, location and idle flag; speed and destination are not compared.\<close>

definition driver_eq :: "driver \<Rightarrow> driver \<Rightarrow> bool" where
  "driver_eq a b =
     (driver_id a = driver_id b \<and> location a = location b \<and> is_idle a = is_idle b)"

text \<open>
  \<open>int(a / b)\<close> on two Python integers.  \<open>a / b\<close> is the double nearest to the exact
  quotient, ties going to the even significand, and \<open>int\<close> cuts its fraction off.  A
  double is \<open>m * 2 ^ e\<close> with a significand \<open>m\<close> of at most 53 bits and \<open>e\<close> from -1074
  on; a quotient that rounds to \<open>2 ^ 1024\<close> or more is too large for a float.

  \<open>round_half_even n d\<close> is the integer nearest to \<open>n / d\<close> for \<open>d > 0\<close>, the even one
  of two that are equally near.
\<close>

definition round_half_even :: "int \<Rightarrow> int \<Rightarrow> int" where
  "round_half_even n d =
     (let q = n div d; r = n mod d
      in if 2 * r < d then q else if d < 2 * r then q + 1 else if even q then q else q + 1)"

text \<open>
  For \<open>x, y > 0\<close>, with \<open>2 ^ k \<le> x / y < 2 ^ (k + 1)\<close>: the exponent of the doubles
  between \<open>2 ^ k\<close> and \<open>2 ^ (k + 1)\<close> is \<open>k - 52\<close>, and -1074 below \<open>2 ^ -1022\<close>.  \<open>k\<close> is
  the difference of the bit lengths of \<open>x\<close> and \<open>y\<close>, or one less.
\<close>

definition float_exponent :: "int \<Rightarrow> int \<Rightarrow> int" where
  "float_exponent x y =
     (let k0 = bitlen x - bitlen y;
          k = (if y * 2 ^ nat k0 \<le> x * 2 ^ nat (- k0) then k0 else k0 - 1)
      in max (k - 52) (- 1074))"

text \<open>
  The significand is the quotient scaled by \<open>2 ^ - e\<close> and rounded; the sign is worked
  out apart, as rounding and truncation are symmetric.
\<close>

definition int_truediv :: "int \<Rightarrow> int \<Rightarrow> error + int" where
  "int_truediv a b =
     (if b = 0 then Inl ZeroDivisionError
      else if a = 0 then Inr 0
      else
        (let e = float_exponent \<bar>a\<bar> \<bar>b\<bar>;
             m = round_half_even (\<bar>a\<bar> * 2 ^ nat (- e)) (\<bar>b\<bar> * 2 ^ nat e)
         in if 2 ^ 1024 \<le> m * 2 ^ nat e then Inl OverflowError
            else Inr (sgn a * sgn b * (m * 2 ^ nat e div 2 ^ nat (- e)))))"

definition get_travel_time :: "driver \<Rightarrow> location \<Rightarrow> error + int" where
  "get_travel_time self dest =
     (case manhattan_distance_opt (location self) (Some dest) of
        Inl e \<Rightarrow> Inl e
      | Inr distance \<Rightarrow> int_truediv distance (speed self))"

text \<open>
  \<open>start_drive\<close> stores the destination and then computes the travel time; the idle
  flag is not written.
\<close>

definition start_drive :: "driver \<Rightarrow> location \<Rightarrow> error + (driver \<times> int)" where
  "start_drive self loc =
     (let self' = self\<lparr>destination := Some loc\<rparr>
      in case get_travel_time self' loc of
           Inl e \<Rightarrow> Inl e
         | Inr t \<Rightarrow> Inr (self', t))"

text \<open>
  \<open>end_drive\<close> and \<open>end_ride\<close> are three assignments each.  The docstrings name the
  precondition that the destination is set; the bodies do not test it, so neither
  method has a faulting branch.
\<close>

definition end_drive :: "driver \<Rightarrow> error + driver" where
  "end_drive self =
     Inr (self\<lparr>location := destination self, destination := None, is_idle := True\<rparr>)"

definition start_ride :: "driver \<Rightarrow> rider \<Rightarrow> error + (driver \<times> int)" where
  "start_ride self r =
     (let self' = self\<lparr>is_idle := False, destination := Some (rider_destination r)\<rparr>
      in case get_travel_time self' (rider_destination r) of
           Inl e \<Rightarrow> Inl e
         | Inr t \<Rightarrow> Inr (self', t))"

definition end_ride :: "driver \<Rightarrow> error + driver" where
  "end_ride self =
     Inr (self\<lparr>location := destination self, is_idle := True, destination := None\<rparr>)"

section \<open>Objects and references\<close>

text \<open>
  Riders and drivers are mutable Python objects, shared by reference between the events
  that carry them and the dispatcher's two lists: what a Pickup writes into a rider is
  what the rider's Cancellation reads later.  A reference is a natural number, and the
  store maps each reference to the object's current fields.
\<close>

type_synonym dref = nat
type_synonym rref = nat

section \<open>monitor.py\<close>

datatype category = RIDER | DRIVER

datatype description = REQUEST | CANCEL | PICKUP | DROPOFF

record activity =
  descr :: description
  time :: int
  activity_id :: string
  activity_location :: "location option"

text \<open>
  \<open>_activities[category]\<close> is a dictionary from identifiers to lists of activities.  It is
  an association list in insertion order, which is the order in which Python iterates
  over \<open>values()\<close>.
\<close>

type_synonym log = "(string \<times> activity list) list"

record monitor =
  rider_activities :: log
  driver_activities :: log

definition Monitor :: monitor where
  "Monitor = \<lparr>rider_activities = [], driver_activities = []\<rparr>"

text \<open>A new identifier gets an empty list first; the activity is appended to the list.\<close>

fun log_append :: "string \<Rightarrow> activity \<Rightarrow> log \<Rightarrow> log" where
  "log_append k a [] = [(k, [a])]"
| "log_append k a ((k', v) # m) =
     (if k = k' then (k', v @ [a]) # m else (k', v) # log_append k a m)"

definition notify ::
  "int \<Rightarrow> category \<Rightarrow> description \<Rightarrow> string \<Rightarrow> location option \<Rightarrow> monitor \<Rightarrow> monitor" where
  "notify timestamp cat des identifier loc self =
     (let a = \<lparr>descr = des, time = timestamp, activity_id = identifier,
               activity_location = loc\<rparr>
      in case cat of
           RIDER \<Rightarrow> self\<lparr>rider_activities := log_append identifier a (rider_activities self)\<rparr>
         | DRIVER \<Rightarrow> self\<lparr>driver_activities := log_append identifier a (driver_activities self)\<rparr>)"

text \<open>
  \<open>a / b\<close> on two Python integers, as a float.  The model keeps the exact quotient; the
  float is its correctly rounded value.
\<close>

definition truediv :: "int \<Rightarrow> int \<Rightarrow> error + real" where
  "truediv a b = (if b = 0 then Inl ZeroDivisionError else Inr (real_of_int a / real_of_int b))"

text \<open>The loop of \<open>_average_wait_time\<close>, carrying \<open>wait_time\<close> and \<open>count\<close>.\<close>

fun wait_loop :: "activity list list \<Rightarrow> int \<Rightarrow> int \<Rightarrow> int \<times> int" where
  "wait_loop [] wait_time count = (wait_time, count)"
| "wait_loop (activities # rest) wait_time count =
     (if length activities \<ge> 2
      then wait_loop rest (wait_time + (time (activities ! 1) - time (activities ! 0))) (count + 1)
      else wait_loop rest wait_time count)"

definition average_wait_time :: "monitor \<Rightarrow> error + real" where
  "average_wait_time self =
     (case wait_loop (map snd (rider_activities self)) 0 0 of
        (wait_time, count) \<Rightarrow> truediv wait_time count)"

text \<open>
  \<open>_average_total_distance\<close>: the inner loop over \<open>range(len(activities) - 2)\<close>, then the
  loop over the drivers' logs.
\<close>

fun total_inner :: "activity list \<Rightarrow> nat list \<Rightarrow> int \<Rightarrow> error + int" where
  "total_inner activities [] distance = Inr distance"
| "total_inner activities (i # is) distance =
     (if descr (activities ! i) = REQUEST then
        (case manhattan_distance_opt (activity_location (activities ! i))
                (activity_location (activities ! (i + 1))) of
           Inl e \<Rightarrow> Inl e
         | Inr d1 \<Rightarrow>
             (if descr (activities ! (i + 2)) = DROPOFF then
                (case manhattan_distance_opt (activity_location (activities ! (i + 1)))
                        (activity_location (activities ! (i + 2))) of
                   Inl e \<Rightarrow> Inl e
                 | Inr d2 \<Rightarrow> total_inner activities is (distance + d1 + d2))
              else total_inner activities is (distance + d1)))
      else total_inner activities is distance)"

fun total_outer :: "activity list list \<Rightarrow> int \<Rightarrow> error + int" where
  "total_outer [] distance = Inr distance"
| "total_outer (activities # rest) distance =
     (case total_inner activities [0 ..< length activities - 2] distance of
        Inl e \<Rightarrow> Inl e
      | Inr distance' \<Rightarrow> total_outer rest distance')"

definition average_total_distance :: "monitor \<Rightarrow> error + real" where
  "average_total_distance self =
     (case total_outer (map snd (driver_activities self)) 0 of
        Inl e \<Rightarrow> Inl e
      | Inr distance \<Rightarrow> truediv distance (int (length (driver_activities self))))"

text \<open>\<open>_average_ride_distance\<close>: the inner loop over \<open>range(len(activities) - 1)\<close>.\<close>

fun ride_inner :: "activity list \<Rightarrow> nat list \<Rightarrow> int \<Rightarrow> error + int" where
  "ride_inner activities [] distance = Inr distance"
| "ride_inner activities (i # is) distance =
     (if descr (activities ! i) = PICKUP \<and> descr (activities ! (i + 1)) = DROPOFF then
        (case manhattan_distance_opt (activity_location (activities ! i))
                (activity_location (activities ! (i + 1))) of
           Inl e \<Rightarrow> Inl e
         | Inr d1 \<Rightarrow> ride_inner activities is (distance + d1))
      else ride_inner activities is distance)"

fun ride_outer :: "activity list list \<Rightarrow> int \<Rightarrow> error + int" where
  "ride_outer [] distance = Inr distance"
| "ride_outer (activities # rest) distance =
     (case ride_inner activities [0 ..< length activities - 1] distance of
        Inl e \<Rightarrow> Inl e
      | Inr distance' \<Rightarrow> ride_outer rest distance')"

definition average_ride_distance :: "monitor \<Rightarrow> error + real" where
  "average_ride_distance self =
     (case ride_outer (map snd (driver_activities self)) 0 of
        Inl e \<Rightarrow> Inl e
      | Inr distance \<Rightarrow> truediv distance (int (length (driver_activities self))))"

record report_dict =
  rider_wait_time :: real
  driver_total_distance :: real
  driver_ride_distance :: real

text \<open>The dictionary display evaluates its three values in the order written.\<close>

definition report :: "monitor \<Rightarrow> error + report_dict" where
  "report self =
     (case average_wait_time self of
        Inl e \<Rightarrow> Inl e
      | Inr w \<Rightarrow>
          (case average_total_distance self of
             Inl e \<Rightarrow> Inl e
           | Inr t \<Rightarrow>
               (case average_ride_distance self of
                  Inl e \<Rightarrow> Inl e
                | Inr r \<Rightarrow>
                    Inr \<lparr>rider_wait_time = w, driver_total_distance = t,
                         driver_ride_distance = r\<rparr>)))"

section \<open>dispatcher.py\<close>

record dispatcher =
  drivers :: "dref list"
  riders :: "rref list"

definition Dispatcher :: dispatcher where
  "Dispatcher = \<lparr>drivers = [], riders = []\<rparr>"

text \<open>
  The state an event works on: the rider and driver objects, the dispatcher and the
  monitor.
\<close>

record world =
  driver_obj :: "dref \<Rightarrow> driver"
  rider_obj :: "rref \<Rightarrow> rider"
  disp :: dispatcher
  mon :: monitor

text \<open>
  The loop of \<open>request_driver\<close> over \<open>self._drivers\<close>, carrying \<open>min_time\<close> (which starts
  at the marker \<open>-1\<close>) and \<open>driver\<close>.  The travel time is computed once for the
  comparison and once more for the assignment, as in the source.
\<close>

fun request_driver_loop ::
  "(dref \<Rightarrow> driver) \<Rightarrow> location \<Rightarrow> dref list \<Rightarrow> int \<Rightarrow> dref option \<Rightarrow> error + dref option" where
  "request_driver_loop h org [] min_time drv = Inr drv"
| "request_driver_loop h org (d # ds) min_time drv =
     (if is_idle (h d) then
        (if min_time = - 1 then
           (case get_travel_time (h d) org of
              Inl e \<Rightarrow> Inl e
            | Inr t \<Rightarrow> request_driver_loop h org ds t (Some d))
         else
           (case get_travel_time (h d) org of
              Inl e \<Rightarrow> Inl e
            | Inr t \<Rightarrow>
                (if min_time > t then
                   (case get_travel_time (h d) org of
                      Inl e \<Rightarrow> Inl e
                    | Inr t' \<Rightarrow> request_driver_loop h org ds t' (Some d))
                 else request_driver_loop h org ds min_time drv)))
      else request_driver_loop h org ds min_time drv)"

definition request_driver :: "world \<Rightarrow> rref \<Rightarrow> error + (world \<times> dref option)" where
  "request_driver w r =
     (if length (drivers (disp w)) = 0 then
        Inr (w\<lparr>disp := (disp w)\<lparr>riders := riders (disp w) @ [r]\<rparr>\<rparr>, None)
      else
        (case request_driver_loop (driver_obj w) (origin (rider_obj w r))
                (drivers (disp w)) (- 1) None of
           Inl e \<Rightarrow> Inl e
         | Inr drv \<Rightarrow> Inr (w, drv)))"

text \<open>
  \<open>x in xs\<close> on a Python list holds when some element is the object \<open>x\<close> itself or
  compares equal to it under \<open>__eq__\<close>; \<open>xs.remove(x)\<close> deletes the first such element.
\<close>

fun driver_in :: "(dref \<Rightarrow> driver) \<Rightarrow> dref \<Rightarrow> dref list \<Rightarrow> bool" where
  "driver_in h d [] = False"
| "driver_in h d (x # xs) = (if x = d \<or> driver_eq (h x) (h d) then True else driver_in h d xs)"

fun rider_in :: "(rref \<Rightarrow> rider) \<Rightarrow> rref \<Rightarrow> rref list \<Rightarrow> bool" where
  "rider_in h r [] = False"
| "rider_in h r (x # xs) = (if x = r \<or> rider_eq (h x) (h r) then True else rider_in h r xs)"

fun rider_remove :: "(rref \<Rightarrow> rider) \<Rightarrow> rref \<Rightarrow> rref list \<Rightarrow> rref list" where
  "rider_remove h r [] = []"
| "rider_remove h r (x # xs) =
     (if x = r \<or> rider_eq (h x) (h r) then xs else x # rider_remove h r xs)"

definition request_rider :: "world \<Rightarrow> dref \<Rightarrow> world \<times> rref option" where
  "request_rider w d =
     (let w1 = (if \<not> driver_in (driver_obj w) d (drivers (disp w))
                then w\<lparr>disp := (disp w)\<lparr>drivers := drivers (disp w) @ [d]\<rparr>\<rparr>
                else w)
      in case riders (disp w1) of
           [] \<Rightarrow> (w1, None)
         | r # rest \<Rightarrow> (w1\<lparr>disp := (disp w1)\<lparr>riders := rest\<rparr>\<rparr>, Some r))"

definition cancel_ride :: "world \<Rightarrow> rref \<Rightarrow> world" where
  "cancel_ride w r =
     (if rider_in (rider_obj w) r (riders (disp w))
      then w\<lparr>disp := (disp w)\<lparr>riders := rider_remove (rider_obj w) r (riders (disp w))\<rparr>\<rparr>
      else w)"

section \<open>event.py\<close>

text \<open>
  The five event classes; each carries its timestamp and references to its rider and
  driver.  \<open>print(self)\<close> writes a trace line and is left out.
\<close>

datatype event =
    RiderRequest int rref
  | DriverRequest int dref
  | Cancellation int rref
  | Dropoff int rref dref
  | Pickup int rref dref

fun timestamp :: "event \<Rightarrow> int" where
  "timestamp (RiderRequest t _) = t"
| "timestamp (DriverRequest t _) = t"
| "timestamp (Cancellation t _) = t"
| "timestamp (Dropoff t _ _) = t"
| "timestamp (Pickup t _ _) = t"

definition RiderRequest_do :: "int \<Rightarrow> rref \<Rightarrow> world \<Rightarrow> error + (world \<times> event list)" where
  "RiderRequest_do t r w =
     (let w1 = w\<lparr>mon := notify t RIDER REQUEST (rider_id (rider_obj w r))
                         (Some (origin (rider_obj w r))) (mon w)\<rparr>
      in case request_driver w1 r of
           Inl e \<Rightarrow> Inl e
         | Inr (w2, None) \<Rightarrow> Inr (w2, [Cancellation (t + patience (rider_obj w2 r)) r])
         | Inr (w2, Some d) \<Rightarrow>
             (case start_drive (driver_obj w2 d) (origin (rider_obj w2 r)) of
                Inl e \<Rightarrow> Inl e
              | Inr (d', travel_time) \<Rightarrow>
                  (let w3 = w2\<lparr>driver_obj := (driver_obj w2)(d := d')\<rparr>
                   in Inr (w3, [Pickup (t + travel_time) r d,
                                Cancellation (t + patience (rider_obj w3 r)) r]))))"

definition DriverRequest_do :: "int \<Rightarrow> dref \<Rightarrow> world \<Rightarrow> error + (world \<times> event list)" where
  "DriverRequest_do t d w =
     (let w1 = w\<lparr>mon := notify t DRIVER REQUEST (driver_id (driver_obj w d))
                         (location (driver_obj w d)) (mon w)\<rparr>
      in case request_rider w1 d of
           (w2, None) \<Rightarrow> Inr (w2, [])
         | (w2, Some r) \<Rightarrow>
             (case start_drive (driver_obj w2 d) (origin (rider_obj w2 r)) of
                Inl e \<Rightarrow> Inl e
              | Inr (d', travel_time) \<Rightarrow>
                  Inr (w2\<lparr>driver_obj := (driver_obj w2)(d := d')\<rparr>,
                       [Pickup (t + travel_time) r d])))"

definition Cancellation_do :: "int \<Rightarrow> rref \<Rightarrow> world \<Rightarrow> error + (world \<times> event list)" where
  "Cancellation_do t r w =
     (if \<not> status (rider_obj w r) = SATISFIED then
        (let w1 = w\<lparr>mon := notify t RIDER CANCEL (rider_id (rider_obj w r))
                            (Some (origin (rider_obj w r))) (mon w)\<rparr>;
             w2 = w1\<lparr>rider_obj := (rider_obj w1)(r := (rider_obj w1 r)\<lparr>status := CANCELLED\<rparr>)\<rparr>
         in Inr (cancel_ride w2 r, []))
      else Inr (w, []))"

definition Dropoff_do :: "int \<Rightarrow> rref \<Rightarrow> dref \<Rightarrow> world \<Rightarrow> error + (world \<times> event list)" where
  "Dropoff_do t r d w =
     (let w1 = w\<lparr>mon := notify t RIDER DROPOFF (rider_id (rider_obj w r))
                         (Some (rider_destination (rider_obj w r))) (mon w)\<rparr>;
          w2 = w1\<lparr>mon := notify t DRIVER DROPOFF (driver_id (driver_obj w1 d))
                          (Some (rider_destination (rider_obj w1 r))) (mon w1)\<rparr>
      in case end_ride (driver_obj w2 d) of
           Inl e \<Rightarrow> Inl e
         | Inr d' \<Rightarrow> Inr (w2\<lparr>driver_obj := (driver_obj w2)(d := d')\<rparr>, [DriverRequest t d]))"

definition Pickup_do :: "int \<Rightarrow> rref \<Rightarrow> dref \<Rightarrow> world \<Rightarrow> error + (world \<times> event list)" where
  "Pickup_do t r d w =
     (case end_drive (driver_obj w d) of
        Inl e \<Rightarrow> Inl e
      | Inr d1 \<Rightarrow>
          (let w1 = w\<lparr>driver_obj := (driver_obj w)(d := d1)\<rparr>;
               w2 = w1\<lparr>mon := notify t DRIVER PICKUP (driver_id (driver_obj w1 d))
                               (location (driver_obj w1 d)) (mon w1)\<rparr>
           in if status (rider_obj w2 r) = WAITING then
                (let w3 = w2\<lparr>mon := notify t RIDER PICKUP (rider_id (rider_obj w2 r))
                                    (Some (origin (rider_obj w2 r))) (mon w2)\<rparr>
                 in case start_ride (driver_obj w3 d) (rider_obj w3 r) of
                      Inl e \<Rightarrow> Inl e
                    | Inr (d2, time') \<Rightarrow>
                        (let w4 = w3\<lparr>driver_obj := (driver_obj w3)(d := d2)\<rparr>
                         in Inr (w4\<lparr>rider_obj :=
                                      (rider_obj w4)(r := (rider_obj w4 r)\<lparr>status := SATISFIED\<rparr>)\<rparr>,
                                 [Dropoff (t + time') r d])))
              else Inr (w2, [DriverRequest t d])))"

fun do :: "event \<Rightarrow> world \<Rightarrow> error + (world \<times> event list)" where
  "do (RiderRequest t r) w = RiderRequest_do t r w"
| "do (DriverRequest t d) w = DriverRequest_do t d w"
| "do (Cancellation t r) w = Cancellation_do t r w"
| "do (Dropoff t r d) w = Dropoff_do t r d w"
| "do (Pickup t r d) w = Pickup_do t r d w"

section \<open>simulation.py\<close>

text \<open>
  Modelled from the spec: the class \<open>PriorityQueue\<close> of the module \<open>container\<close>, which
  \<open>simulation.py\<close> imports and which is not among the sources.  The spec says that "a
  priority queue keeps events in timestamp order", that "the engine must always process
  the globally-smallest remaining timestamp next" and that "events with equal timestamps
  have unspecified mutual order unless the chosen queue implementation supplies FIFO
  tie-breaking".  The queue is the list of its events in ascending timestamp order;
  \<open>remove\<close> takes the head; \<open>add\<close> inserts behind the events of the same timestamp when
  \<open>fifo\<close> holds and in front of them otherwise, so that both tie orders are covered.
\<close>

fun pq_add :: "bool \<Rightarrow> event \<Rightarrow> event list \<Rightarrow> event list" where
  "pq_add fifo e [] = [e]"
| "pq_add fifo e (x # xs) =
     (if timestamp e < timestamp x \<or> (\<not> fifo \<and> timestamp e = timestamp x)
      then e # x # xs else x # pq_add fifo e xs)"

text \<open>\<open>for event in events: self._events.add(event)\<close>\<close>

fun add_all :: "bool \<Rightarrow> event list \<Rightarrow> event list \<Rightarrow> event list" where
  "add_all fifo [] q = q"
| "add_all fifo (e # es) q = add_all fifo es (pq_add fifo e q)"

text \<open>
  The \<open>while\<close> loop of \<open>run\<close>.  Nothing in the loop bounds the number of rounds, so the
  loop is a partial function: \<open>None\<close> stands for a loop that never leaves.
\<close>

partial_function (option) run_loop :: "bool \<Rightarrow> world \<Rightarrow> event list \<Rightarrow> (error + world) option" where
  "run_loop fifo w q =
     (case q of
        [] \<Rightarrow> Some (Inr w)
      | e # q' \<Rightarrow>
          (case do e w of
             Inl err \<Rightarrow> Some (Inl err)
           | Inr (w', new_events) \<Rightarrow> run_loop fifo w' (add_all fifo new_events q')))"

declare run_loop.simps [code]

text \<open>
  \<open>Simulation().run(initial_events)\<close>: a new simulation has an empty queue, a new
  dispatcher and a new monitor; the riders and drivers are the objects the initial
  events refer to.
\<close>

definition run ::
  "bool \<Rightarrow> (dref \<Rightarrow> driver) \<Rightarrow> (rref \<Rightarrow> rider) \<Rightarrow> event list \<Rightarrow> (error + report_dict) option" where
  "run fifo ds rs initial_events =
     (case run_loop fifo \<lparr>driver_obj = ds, rider_obj = rs, disp = Dispatcher, mon = Monitor\<rparr>
             (add_all fifo initial_events []) of
        None \<Rightarrow> None
      | Some (Inl e) \<Rightarrow> Some (Inl e)
      | Some (Inr w) \<Rightarrow> Some (report (mon w)))"

section \<open>Properties named by the specification\<close>

text \<open>The relation the specification states between the idle flag and the pending destination.\<close>

definition idle_iff_no_destination :: "driver \<Rightarrow> bool" where
  "idle_iff_no_destination d = (is_idle d = (destination d = None))"

text \<open>
  A sequence of calls of the four operations of a driver, run from left to right; a
  fault ends the run.
\<close>

datatype driver_op = StartDrive location | EndDrive | StartRide rider | EndRide

fun driver_step :: "driver \<Rightarrow> driver_op \<Rightarrow> error + driver" where
  "driver_step self (StartDrive loc) =
     (case start_drive self loc of Inl e \<Rightarrow> Inl e | Inr (self', t) \<Rightarrow> Inr self')"
| "driver_step self EndDrive = end_drive self"
| "driver_step self (StartRide r) =
     (case start_ride self r of Inl e \<Rightarrow> Inl e | Inr (self', t) \<Rightarrow> Inr self')"
| "driver_step self EndRide = end_ride self"

fun driver_steps :: "driver \<Rightarrow> driver_op list \<Rightarrow> error + driver" where
  "driver_steps self [] = Inr self"
| "driver_steps self (c # cs) =
     (case driver_step self c of Inl e \<Rightarrow> Inl e | Inr self' \<Rightarrow> driver_steps self' cs)"

text \<open>
  The travel time in the specification's words: the floor of the Manhattan distance from
  the driver's location to a place, divided by the speed.
\<close>

definition floor_travel_time :: "driver \<Rightarrow> location \<Rightarrow> int" where
  "floor_travel_time d org =
     (case location d of
        None \<Rightarrow> 0
      | Some l \<Rightarrow> \<lfloor>real_of_int (manhattan_distance l org) / real_of_int (speed d)\<rfloor>)"

text \<open>
  A driver that has a location less than \<open>2 ^ 53\<close> away from a place: there the double
  of distance by speed is so near the exact quotient that its truncation is the floor.
\<close>

definition located_within_range :: "driver \<Rightarrow> location \<Rightarrow> bool" where
  "located_within_range d org =
     (case location d of None \<Rightarrow> False | Some l \<Rightarrow> manhattan_distance l org < 2 ^ 53)"








section \<open>Concrete riders, drivers and states\<close>

text \<open>The rider and the driver of the docstring of \<open>Simulation.run\<close>.\<close>

definition r1 :: rider where
  "r1 = Rider ''r1'' \<lparr>row = 0, column = 0\<rparr> \<lparr>row = 3, column = 4\<rparr> 4"

definition d1 :: driver where
  "d1 = Driver ''d1'' \<lparr>row = 0, column = 4\<rparr> 10"

text \<open>A driver on a ride whose destination has been lost.\<close>

definition d2 :: driver where
  "d2 = (Driver ''d2'' \<lparr>row = 5, column = 5\<rparr> 3)\<lparr>is_idle := False\<rparr>"

text \<open>The drivers of the docstring of \<open>request_driver\<close>, and a fourth as near as the third.\<close>

definition da :: driver where
  "da = (Driver ''d'' \<lparr>row = 5, column = 5\<rparr> 10)\<lparr>is_idle := False\<rparr>"

definition db :: driver where
  "db = Driver ''d1'' \<lparr>row = 31, column = 29\<rparr> 20"

definition dc :: driver where
  "dc = Driver ''d2'' \<lparr>row = 0, column = 3\<rparr> 5"

definition dd :: driver where
  "dd = Driver ''d3'' \<lparr>row = 4, column = 0\<rparr> 5"

definition n1 :: rider where
  "n1 = Rider ''n1'' \<lparr>row = 0, column = 0\<rparr> \<lparr>row = 3, column = 4\<rparr> 2"

text \<open>A new simulation that knows \<open>r1\<close> and \<open>d1\<close>; nobody has asked for anything yet.\<close>

definition w_new :: world where
  "w_new = \<lparr>driver_obj = (\<lambda>_. d1), rider_obj = (\<lambda>_. r1), disp = Dispatcher, mon = Monitor\<rparr>"

text \<open>\<open>d1\<close> has registered and is idle.\<close>

definition w_registered :: world where
  "w_registered = w_new\<lparr>disp := \<lparr>drivers = [0], riders = []\<rparr>\<rparr>"

text \<open>The only registered driver is on a ride.\<close>

definition w_busy :: world where
  "w_busy = \<lparr>driver_obj = (\<lambda>_. da), rider_obj = (\<lambda>_. n1),
            disp = \<lparr>drivers = [0], riders = []\<rparr>, mon = Monitor\<rparr>"

text \<open>The four drivers \<open>da\<close>, \<open>db\<close>, \<open>dc\<close>, \<open>dd\<close> have registered in this order.\<close>

definition w_four :: world where
  "w_four = \<lparr>driver_obj = (\<lambda>_. da)(1 := db, 2 := dc, 3 := dd), rider_obj = (\<lambda>_. n1),
            disp = \<lparr>drivers = [0, 1, 2, 3], riders = []\<rparr>, mon = Monitor\<rparr>"

text \<open>
  \<open>r1\<close> asked at time 2 and cancelled at time 6, while \<open>d1\<close> was on its way to the
  rider's origin.
\<close>

definition w_cancelled :: world where
  "w_cancelled =
     \<lparr>driver_obj = (\<lambda>_. d1\<lparr>destination := Some \<lparr>row = 0, column = 0\<rparr>\<rparr>),
      rider_obj = (\<lambda>_. r1\<lparr>status := CANCELLED\<rparr>),
      disp = \<lparr>drivers = [0], riders = []\<rparr>,
      mon = notify 6 RIDER CANCEL ''r1'' (Some \<lparr>row = 0, column = 0\<rparr>)
              (notify 2 RIDER REQUEST ''r1'' (Some \<lparr>row = 0, column = 0\<rparr>) Monitor)\<rparr>"

text \<open>\<open>r1\<close> asked at time 2 and was picked up at time 3 by \<open>d1\<close>, which is on the ride.\<close>

definition w_satisfied :: world where
  "w_satisfied =
     \<lparr>driver_obj = (\<lambda>_. d1\<lparr>location := Some \<lparr>row = 0, column = 0\<rparr>, is_idle := False,
                               destination := Some \<lparr>row = 3, column = 4\<rparr>\<rparr>),
      rider_obj = (\<lambda>_. r1\<lparr>status := SATISFIED\<rparr>),
      disp = \<lparr>drivers = [0], riders = []\<rparr>,
      mon = notify 3 RIDER PICKUP ''r1'' (Some \<lparr>row = 0, column = 0\<rparr>)
              (notify 2 RIDER REQUEST ''r1'' (Some \<lparr>row = 0, column = 0\<rparr>) Monitor)\<rparr>"

text \<open>
  Two idle drivers side by side, registered in the order \<open>dp\<close>, \<open>dq\<close>, and a rider whose
  origin is \<open>2 ^ 53 + 1\<close> rows from the first and \<open>2 ^ 53\<close> rows from the second.
\<close>

definition dp :: driver where
  "dp = Driver ''p'' \<lparr>row = 0, column = 0\<rparr> 1"

definition dq :: driver where
  "dq = Driver ''q'' \<lparr>row = 1, column = 0\<rparr> 1"

definition r_far :: rider where
  "r_far = Rider ''far'' \<lparr>row = 2 ^ 53 + 1, column = 0\<rparr> \<lparr>row = 0, column = 0\<rparr> 1"

definition w_far :: world where
  "w_far = \<lparr>driver_obj = (\<lambda>_. dp)(1 := dq), rider_obj = (\<lambda>_. r_far),
            disp = \<lparr>drivers = [0, 1], riders = []\<rparr>, mon = Monitor\<rparr>"

text \<open>
  A run of three events.  The driver \<open>dl\<close> asks for a rider at time 0; the rider \<open>ra\<close> asks
  at time 1 and \<open>rb\<close> at time 3, each with patience 1.  \<open>dl\<close> is sent to \<open>ra\<close> and, still
  idle, to \<open>rb\<close> as well; both riders have cancelled when it arrives, and its second
  arrival ends a drive that has no destination.
\<close>

definition dl :: driver where
  "dl = Driver ''D'' \<lparr>row = 0, column = 0\<rparr> 1"

definition ra :: rider where
  "ra = Rider ''A'' \<lparr>row = 0, column = 5\<rparr> \<lparr>row = 1, column = 1\<rparr> 1"

definition rb :: rider where
  "rb = Rider ''B'' \<lparr>row = 0, column = 2\<rparr> \<lparr>row = 1, column = 1\<rparr> 1"

definition lost_events :: "event list" where
  "lost_events = [DriverRequest 0 0, RiderRequest 1 0, RiderRequest 3 1]"

definition w_start :: world where
  "w_start = \<lparr>driver_obj = (\<lambda>_. dl), rider_obj = (\<lambda>_. ra)(1 := rb),
              disp = Dispatcher, mon = Monitor\<rparr>"

text \<open>The driver and the monitor at the end of that run, and a state with that driver.\<close>

definition dl_end :: driver where
  "dl_end = dl\<lparr>location := None\<rparr>"

definition m_lost :: monitor where
  "m_lost =
     \<lparr>rider_activities =
        [(''A'', [\<lparr>descr = REQUEST, time = 1, activity_id = ''A'',
                   activity_location = Some \<lparr>row = 0, column = 5\<rparr>\<rparr>,
                 \<lparr>descr = CANCEL, time = 2, activity_id = ''A'',
                   activity_location = Some \<lparr>row = 0, column = 5\<rparr>\<rparr>]),
         (''B'', [\<lparr>descr = REQUEST, time = 3, activity_id = ''B'',
                   activity_location = Some \<lparr>row = 0, column = 2\<rparr>\<rparr>,
                 \<lparr>descr = CANCEL, time = 4, activity_id = ''B'',
                   activity_location = Some \<lparr>row = 0, column = 2\<rparr>\<rparr>])],
      driver_activities =
        [(''D'', [\<lparr>descr = REQUEST, time = 0, activity_id = ''D'',
                   activity_location = Some \<lparr>row = 0, column = 0\<rparr>\<rparr>,
                 \<lparr>descr = PICKUP, time = 5, activity_id = ''D'',
                   activity_location = Some \<lparr>row = 0, column = 2\<rparr>\<rparr>,
                 \<lparr>descr = REQUEST, time = 5, activity_id = ''D'',
                   activity_location = Some \<lparr>row = 0, column = 2\<rparr>\<rparr>,
                 \<lparr>descr = PICKUP, time = 6, activity_id = ''D'',
                   activity_location = None\<rparr>,
                 \<lparr>descr = REQUEST, time = 6, activity_id = ''D'',
                   activity_location = None\<rparr>])]\<rparr>"

definition w_lost :: world where
  "w_lost = \<lparr>driver_obj = (\<lambda>_. dl_end), rider_obj = (\<lambda>_. r1),
             disp = \<lparr>drivers = [0], riders = []\<rparr>, mon = m_lost\<rparr>"


section \<open>The double of a quotient\<close>

lemma round_half_even_bounds:
  assumes "0 < d"
  shows "n div d \<le> round_half_even n d" and "round_half_even n d \<le> n div d + 1"
  by (simp_all add: round_half_even_def Let_def)

lemma round_half_even_down:
  "2 * (n mod d) < d \<Longrightarrow> round_half_even n d = n div d"
  by (simp add: round_half_even_def Let_def)

lemma cross_powi:
  fixes x y k :: int
  shows "(y * 2 ^ nat k \<le> x * 2 ^ nat (- k)) \<longleftrightarrow> (real_of_int y * 2 powi k \<le> real_of_int x)"
proof (cases "0 \<le> k")
  case True
  then have "nat (- k) = 0" by simp
  moreover from True have "(2::real) powi k = 2 ^ nat k" by (rule power_int_nonneg_exp)
  moreover have "(y * 2 ^ nat k \<le> x) \<longleftrightarrow> (real_of_int (y * 2 ^ nat k) \<le> real_of_int x)"
    by linarith
  ultimately show ?thesis by simp
next
  case False
  then have n: "nat k = 0" by simp
  from False have "(2::real) powi (- k) = 2 ^ nat (- k)" by (simp add: power_int_nonneg_exp)
  then have p: "(2::real) powi k = 1 / 2 ^ nat (- k)"
    using power_int_minus_divide [of "2::real" "- k"] by simp
  have "(y \<le> x * 2 ^ nat (- k)) \<longleftrightarrow> (real_of_int y \<le> real_of_int (x * 2 ^ nat (- k)))"
    by linarith
  then show ?thesis by (simp add: n p field_simps)
qed

lemma bitlen_powi_bounds:
  assumes "0 < x"
  shows "2 powi (bitlen x - 1) \<le> real_of_int x" and "real_of_int x < 2 powi (bitlen x)"
proof -
  from assms have b: "1 \<le> bitlen x" by (simp add: bitlen_alt_def)
  from bitlen_bounds [OF assms] have l: "2 ^ nat (bitlen x - 1) \<le> x" and u: "x < 2 ^ nat (bitlen x)"
    by simp_all
  from l have "real_of_int (2 ^ nat (bitlen x - 1)) \<le> real_of_int x" by linarith
  with b show "2 powi (bitlen x - 1) \<le> real_of_int x" by (simp add: power_int_nonneg_exp)
  from u have "real_of_int x < real_of_int (2 ^ nat (bitlen x))" by linarith
  with b show "real_of_int x < 2 powi (bitlen x)" by (simp add: power_int_nonneg_exp)
qed

text \<open>The \<open>k\<close> of \<open>float_exponent\<close> is the one with \<open>2 ^ k \<le> x / y < 2 ^ (k + 1)\<close>.\<close>

lemma binade_bounds:
  fixes x y :: int
  assumes "0 < x" and "0 < y"
  defines "k0 \<equiv> bitlen x - bitlen y"
  defines "k \<equiv> (if y * 2 ^ nat k0 \<le> x * 2 ^ nat (- k0) then k0 else k0 - 1)"
  shows "real_of_int y * 2 powi k \<le> real_of_int x"
    and "real_of_int x < real_of_int y * 2 powi (k + 1)"
    and "k \<le> bitlen x - 1"
proof -
  note bx = bitlen_powi_bounds [OF assms(1)] and bw = bitlen_powi_bounds [OF assms(2)]
  have s1: "(2::real) powi (bitlen y - 1) * 2 powi (k0 + 1) = 2 powi bitlen x"
    unfolding k0_def by (simp flip: power_int_add)
  have s2: "(2::real) powi (bitlen y) * 2 powi (k0 - 1) = 2 powi (bitlen x - 1)"
    unfolding k0_def by (simp flip: power_int_add)
  have ly: "1 \<le> bitlen y" using assms(2) by (simp add: bitlen_alt_def)
  show "real_of_int y * 2 powi k \<le> real_of_int x"
  proof (cases "y * 2 ^ nat k0 \<le> x * 2 ^ nat (- k0)")
    case True
    then show ?thesis unfolding k_def by (simp add: cross_powi)
  next
    case False
    then have k: "k = k0 - 1" unfolding k_def by simp
    have "real_of_int y * 2 powi (k0 - 1) \<le> 2 powi (bitlen y) * 2 powi (k0 - 1)"
      using bw(2) by (intro mult_right_mono) simp_all
    also have "\<dots> = 2 powi (bitlen x - 1)" by (rule s2)
    also have "\<dots> \<le> real_of_int x" by (rule bx(1))
    finally show ?thesis unfolding k .
  qed
  show "real_of_int x < real_of_int y * 2 powi (k + 1)"
  proof (cases "y * 2 ^ nat k0 \<le> x * 2 ^ nat (- k0)")
    case True
    then have k: "k = k0" unfolding k_def by simp
    have "real_of_int x < 2 powi bitlen x" by (rule bx(2))
    also have "\<dots> = 2 powi (bitlen y - 1) * 2 powi (k0 + 1)" by (rule s1 [symmetric])
    also have "\<dots> \<le> real_of_int y * 2 powi (k0 + 1)"
      using bw(1) by (intro mult_right_mono) simp_all
    finally show ?thesis unfolding k .
  next
    case False
    then have k: "k = k0 - 1" unfolding k_def by simp
    from False have "\<not> real_of_int y * 2 powi k0 \<le> real_of_int x" by (simp add: cross_powi)
    then show ?thesis unfolding k by simp
  qed
  show "k \<le> bitlen x - 1"
    using ly unfolding k_def k0_def by simp
qed

lemma div_less_of_less_mult:
  fixes a b c :: int
  assumes "0 < b" and "a < b * c"
  shows "a div b < c"
proof (rule ccontr)
  assume "\<not> a div b < c"
  then have "c \<le> a div b" by simp
  with assms(1) have "b * c \<le> b * (a div b)" by (simp add: mult_left_mono)
  also have "\<dots> \<le> a"
  proof -
    have "a = b * (a div b) + a mod b" by simp
    moreover have "0 \<le> a mod b" using assms(1) by simp
    ultimately show ?thesis by linarith
  qed
  finally show False using assms(2) by simp
qed

lemma le_div_of_mult_le:
  fixes a b c :: int
  assumes "0 < b" and "c * b \<le> a"
  shows "c \<le> a div b"
proof (rule ccontr)
  assume "\<not> c \<le> a div b"
  then have "a div b + 1 \<le> c" by simp
  with assms(1) have "(a div b + 1) * b \<le> c * b" by (simp add: mult_right_mono)
  moreover have "(a div b + 1) * b = a div b * b + b" by (simp add: distrib_right)
  moreover have "a = a div b * b + a mod b" by simp
  moreover have "a mod b < b" using assms(1) by simp
  ultimately show False using assms(2) by linarith
qed

lemma div_eq_of_between:
  fixes m n p :: int
  assumes "0 < p" and "n * p \<le> m" and "m < (n + 1) * p"
  shows "m div p = n"
proof -
  from le_div_of_mult_le [OF assms(1,2)] have "n \<le> m div p" .
  moreover from assms(3) have "m < p * (n + 1)" by (simp add: mult.commute)
  from div_less_of_less_mult [OF assms(1) this] have "m div p < n + 1" .
  ultimately show ?thesis by simp
qed

lemma div_bounds:
  fixes x y :: int
  assumes "0 < y"
  shows "x div y * y \<le> x" and "x + 1 \<le> (x div y + 1) * y"
proof -
  have "x = x div y * y + x mod y" by simp
  moreover have "0 \<le> x mod y" "x mod y < y" using assms by simp_all
  ultimately show "x div y * y \<le> x" by linarith
  have "(x div y + 1) * y = x div y * y + y" by (simp add: algebra_simps)
  with \<open>x = x div y * y + x mod y\<close> \<open>x mod y < y\<close> show "x + 1 \<le> (x div y + 1) * y" by linarith
qed

lemma scaled_below:
  fixes x y k :: int and s :: nat
  assumes "0 < y" and "real_of_int x < real_of_int y * 2 powi (k + 1)" and "k + 1 + int s \<le> 53"
  shows "x * 2 ^ s < y * 2 ^ 53"
proof -
  have "(2::real) powi (k + 1 + int s) \<le> 2 powi 53"
    using assms(3) by (intro power_int_increasing) simp_all
  then have "real_of_int y * 2 powi (k + 1 + int s) \<le> real_of_int y * 2 ^ 53"
    using assms(1) by simp
  moreover have "real_of_int x * 2 ^ s < real_of_int y * 2 powi (k + 1) * 2 ^ s"
    using assms(2) by simp
  moreover have "real_of_int y * 2 powi (k + 1) * 2 ^ s = real_of_int y * 2 powi (k + 1 + int s)"
    by (simp add: power_int_add)
  ultimately have "real_of_int x * 2 ^ s < real_of_int y * 2 ^ 53" by linarith
  then have "real_of_int (x * 2 ^ s) < real_of_int (y * 2 ^ 53)" by simp
  then show ?thesis by linarith
qed

lemma divisor_below:
  fixes x y k :: int and s :: nat
  assumes "real_of_int y * 2 powi k \<le> real_of_int x" and "x < 2 ^ 53" and "int s = 52 - k"
  shows "y < 2 ^ (s + 1)"
proof -
  from assms(2) have "real_of_int x < real_of_int (2 ^ 53)" by linarith
  then have "real_of_int x < 2 ^ 53" by simp
  with assms(1) have "real_of_int y * 2 powi k < 2 ^ 53" by linarith
  then have "real_of_int y * 2 powi k * 2 powi (- k) < 2 ^ 53 * 2 powi (- k)"
    by (intro mult_strict_right_mono) simp_all
  moreover have "real_of_int y * 2 powi k * 2 powi (- k) = real_of_int y"
    by (simp add: power_int_minus field_simps)
  moreover have "(2::real) ^ 53 * 2 powi (- k) = 2 powi (53 - k)"
    using power_int_add [of "2::real" 53 "- k"] by simp
  moreover have "(2::real) powi (53 - k) = 2 ^ (s + 1)"
  proof -
    have "53 - k = int (s + 1)" using assms(3) by simp
    then show ?thesis by (simp only: power_int_of_nat)
  qed
  ultimately have "real_of_int y < 2 ^ (s + 1)" by simp
  then have "real_of_int y < real_of_int (2 ^ (s + 1))" by simp
  then show ?thesis by linarith
qed

lemma round_below:
  fixes X y n :: int and s :: nat
  assumes y0: "0 < y" and ys: "y < 2 ^ (s + 1)" and XN: "X + 2 ^ s \<le> N * y"
  shows "round_half_even X y < N"
proof -
  define q r where "q = X div y" and "r = X mod y"
  have Xqr: "X = q * y + r" and r0: "0 \<le> r" and ry: "r < y"
    using y0 by (simp_all add: q_def r_def)
  have p: "(0::int) < 2 ^ s" by simp
  from Xqr r0 XN p have "q * y < N * y" by linarith
  then have qN: "q < N" using y0 by (simp add: mult_less_cancel_right)
  from round_half_even_bounds(2) [OF y0, of X] have mq: "round_half_even X y \<le> q + 1"
    by (simp add: q_def)
  show ?thesis
  proof (cases "q = N - 1")
    case False
    with qN mq show ?thesis by simp
  next
    case True
    have "(N - 1) * y = N * y - y" by (simp add: left_diff_distrib)
    with True have "q * y = N * y - y" by simp
    with Xqr XN have "r \<le> y - 2 ^ s" by linarith
    moreover have "(2::int) ^ (s + 1) = 2 * 2 ^ s" by simp
    ultimately have "2 * r < y" using ys by linarith
    then have "round_half_even X y = q" by (simp add: q_def r_def round_half_even_down)
    with qN show ?thesis by simp
  qed
qed


text \<open>
  Below \<open>2 ^ 53\<close> the double of a quotient is below \<open>2 ^ 1024\<close>, and cutting its
  fraction off gives the integer quotient.
\<close>

lemma double_quotient_exact:
  fixes x y :: int
  assumes x0: "0 < x" and x53: "x < 2 ^ 53" and y0: "0 < y"
  defines "e \<equiv> float_exponent x y"
  defines "m \<equiv> round_half_even (x * 2 ^ nat (- e)) (y * 2 ^ nat e)"
  shows "m * 2 ^ nat e < 2 ^ 1024" and "m * 2 ^ nat e div 2 ^ nat (- e) = x div y"
proof -
  define k0 where "k0 = bitlen x - bitlen y"
  define k where "k = (if y * 2 ^ nat k0 \<le> x * 2 ^ nat (- k0) then k0 else k0 - 1)"
  have e: "e = max (k - 52) (- 1074)"
    unfolding e_def float_exponent_def k_def k0_def Let_def ..
  note K = binade_bounds [OF x0 y0, folded k0_def, folded k_def]
  have "bitlen x \<le> 53" using x53 by (simp add: bitlen_le_iff_power)
  with K(3) have k52: "k \<le> 52" by simp
  with e have e0: "e \<le> 0" by simp
  define s where "s = nat (- e)"
  have se: "int s = - e" using e0 by (simp add: s_def)
  have ne: "nat e = 0" using e0 by simp
  define X where "X = x * 2 ^ s"
  have m: "m = round_half_even X y" by (simp add: m_def ne s_def X_def)
  define q where "q = X div y"
  have "k + 1 + int s \<le> 53" using e se by simp
  from scaled_below [OF y0 K(2) this] have U: "X < y * 2 ^ 53" by (simp add: X_def)
  from div_less_of_less_mult [OF y0 U] have q53: "q < 2 ^ 53" by (simp add: q_def)
  from round_half_even_bounds(2) [OF y0, of X] have mq: "m \<le> q + 1" by (simp add: m q_def)
  from round_half_even_bounds(1) [OF y0, of X] have qm: "q \<le> m" by (simp add: m q_def)
  from mq q53 have m53: "m \<le> 2 ^ 53" by simp
  have "(2::int) ^ 53 < 2 ^ 1024" by (rule power_strict_increasing) simp_all
  with m53 show "m * 2 ^ nat e < 2 ^ 1024" by (simp add: ne)
  define n where "n = x div y"
  note xn = div_bounds [OF y0, of x, folded n_def]
  have "n * 2 ^ s * y = n * y * 2 ^ s" by (simp add: mult.assoc mult.commute)
  also have "\<dots> \<le> x * 2 ^ s" using xn(1) by (intro mult_right_mono) simp_all
  finally have "n * 2 ^ s * y \<le> X" by (simp add: X_def)
  from le_div_of_mult_le [OF y0 this] have low: "n * 2 ^ s \<le> q" by (simp add: q_def)
  have XN: "X + 2 ^ s \<le> (n + 1) * 2 ^ s * y"
  proof -
    have "(x + 1) * 2 ^ s \<le> (n + 1) * y * 2 ^ s"
      using xn(2) by (intro mult_right_mono) simp_all
    moreover have "(x + 1) * 2 ^ s = X + 2 ^ s" by (simp add: X_def distrib_right)
    moreover have "(n + 1) * y * 2 ^ s = (n + 1) * 2 ^ s * y" by (simp add: mult.assoc mult.commute)
    ultimately show ?thesis by simp
  qed
  have up: "m < (n + 1) * 2 ^ s"
  proof (cases "k - 52 < - 1074")
    case True
    then have "e = - 1074" using e by simp
    then have s: "s = 1074" using se by simp
    from True have "(2::real) powi (k + 1) \<le> 2 powi 0"
      by (intro power_int_increasing) simp_all
    then have "real_of_int y * 2 powi (k + 1) \<le> real_of_int y" using y0 by simp
    with K(2) have "x < y" by linarith
    then have "n = 0" using x0 by (simp add: n_def)
    moreover have "(2::int) ^ 53 < 2 ^ 1074" by (rule power_strict_increasing) simp_all
    with m53 have "m < 2 ^ 1074" by linarith
    ultimately show ?thesis by (simp only: s) simp
  next
    case False
    then have "e = k - 52" using e by simp
    then have sk: "int s = 52 - k" using se by simp
    from divisor_below [OF K(1) x53 sk] have ys: "y < 2 ^ (s + 1)" .
    from round_below [OF y0 ys XN] show ?thesis by (simp add: m)
  qed
  from low qm have "n * 2 ^ s \<le> m" by simp
  from div_eq_of_between [OF _ this up] have "m div 2 ^ s = n" by simp
  then show "m * 2 ^ nat e div 2 ^ nat (- e) = x div y"
    by (simp add: ne s_def n_def)
qed


lemma int_truediv_exact:
  assumes "\<bar>a\<bar> < 2 ^ 53" and "b \<noteq> 0"
  shows "int_truediv a b = Inr (sgn a * sgn b * (\<bar>a\<bar> div \<bar>b\<bar>))"
proof (cases "a = 0")
  case True
  with assms(2) show ?thesis by (simp add: int_truediv_def)
next
  case False
  then have x: "0 < \<bar>a\<bar>" by simp
  from assms(2) have y: "0 < \<bar>b\<bar>" by simp
  note q = double_quotient_exact [OF x assms(1) y]
  from q(1) have "\<not> 2 ^ 1024 \<le>
      round_half_even (\<bar>a\<bar> * 2 ^ nat (- float_exponent \<bar>a\<bar> \<bar>b\<bar>))
        (\<bar>b\<bar> * 2 ^ nat (float_exponent \<bar>a\<bar> \<bar>b\<bar>)) * 2 ^ nat (float_exponent \<bar>a\<bar> \<bar>b\<bar>)"
    by simp
  with False assms(2) q(2) show ?thesis
    by (simp add: int_truediv_def Let_def)
qed

lemma int_truediv_floor:
  assumes "0 \<le> a" and "a < 2 ^ 53" and "0 < b"
  shows "int_truediv a b = Inr (a div b)"
proof (cases "a = 0")
  case True
  with assms show ?thesis by (simp add: int_truediv_def)
next
  case False
  with assms have "sgn a = 1" and "sgn b = 1" and "\<bar>a\<bar> < 2 ^ 53" and "b \<noteq> 0" by simp_all
  with int_truediv_exact [of a b] assms show ?thesis by simp
qed

section \<open>End-to-end run\<close>

lemmas obj_defs =
  r1_def d1_def d2_def da_def db_def dc_def dd_def n1_def dp_def dq_def r_far_def
  dl_def ra_def rb_def dl_end_def Rider_def Driver_def Dispatcher_def Monitor_def

lemmas driver_defs =
  start_drive_def end_drive_def start_ride_def end_ride_def get_travel_time_def
  int_truediv_exact manhattan_distance_def driver_eq_def rider_eq_def

lemmas event_defs =
  RiderRequest_do_def DriverRequest_do_def Cancellation_do_def Dropoff_do_def Pickup_do_def
  request_driver_def request_rider_def cancel_ride_def notify_def

lemmas report_defs =
  report_def average_wait_time_def average_total_distance_def average_ride_distance_def
  truediv_def

text \<open>
  C1.  Running the simulation on the two initial events \<open>RiderRequest(2, r1)\<close>, with
  \<open>r1\<close> going from (0,0) to (3,4) with patience 4, and \<open>DriverRequest(3, d1)\<close>, with
  \<open>d1\<close> at (0,4) with speed 10, leaves the loop and returns the report with
  rider wait time 1.0, driver ride distance 7.0 and driver total distance 11.0,
  whichever way the queue orders events of equal timestamp.
\<close>

theorem run_docstring_scenario:
  "run fifo (\<lambda>_. d1) (\<lambda>_. r1) [RiderRequest 2 0, DriverRequest 3 0] =
     Some (Inr \<lparr>rider_wait_time = 1, driver_total_distance = 11, driver_ride_distance = 7\<rparr>)"
  by (cases fifo)
     (simp_all add: run_def run_loop.simps obj_defs driver_defs event_defs report_defs upt_rec)

section \<open>Drivers\<close>


lemma manhattan_distance_nonneg: "0 \<le> manhattan_distance a b"
  by (simp add: manhattan_distance_def)

text \<open>
  Within range and with a speed greater than 0, the travel time the code computes is the
  floor of the distance divided by the speed.
\<close>

lemma get_travel_time_floor:
  assumes "located_within_range d org" and "0 < speed d"
  shows "get_travel_time d org = Inr (floor_travel_time d org)"
    and "0 \<le> floor_travel_time d org"
    and "\<exists>l. location d = Some l \<and> floor_travel_time d org = manhattan_distance l org div speed d"
proof -
  from assms(1) obtain l where l: "location d = Some l" and r: "manhattan_distance l org < 2 ^ 53"
    by (auto simp: located_within_range_def split: option.splits)
  have f: "floor_travel_time d org = manhattan_distance l org div speed d"
    by (simp add: floor_travel_time_def l floor_divide_of_int_eq)
  show "get_travel_time d org = Inr (floor_travel_time d org)"
    using int_truediv_floor [OF manhattan_distance_nonneg r assms(2)]
    by (simp add: get_travel_time_def l f)
  show "0 \<le> floor_travel_time d org"
    unfolding f using manhattan_distance_nonneg [of l org] assms(2)
    by (simp add: pos_imp_zdiv_nonneg_iff)
  from l f show "\<exists>l. location d = Some l \<and>
      floor_travel_time d org = manhattan_distance l org div speed d"
    by blast
qed

lemma get_travel_time_in_range:
  assumes "located_within_range d org" and "speed d \<noteq> 0"
  shows "\<exists>t. get_travel_time d org = Inr t"
proof -
  from assms(1) obtain l where l: "location d = Some l" and r: "manhattan_distance l org < 2 ^ 53"
    by (auto simp: located_within_range_def split: option.splits)
  from r manhattan_distance_nonneg [of l org] have "\<bar>manhattan_distance l org\<bar> < 2 ^ 53" by simp
  from int_truediv_exact [OF this assms(2)] show ?thesis
    by (simp add: get_travel_time_def l)
qed


text \<open>
  Ending a drive or a ride and starting a ride leave a driver whose idle flag says
  whether a destination is pending; starting a drive is the operation that does not.
\<close>

lemma end_drive_idle_iff_no_destination:
  "end_drive self = Inr self' \<Longrightarrow> idle_iff_no_destination self'"
  by (auto simp: end_drive_def idle_iff_no_destination_def)

lemma end_ride_idle_iff_no_destination:
  "end_ride self = Inr self' \<Longrightarrow> idle_iff_no_destination self'"
  by (auto simp: end_ride_def idle_iff_no_destination_def)

lemma start_ride_idle_iff_no_destination:
  "start_ride self r = Inr (self', t) \<Longrightarrow> idle_iff_no_destination self'"
  by (auto simp: start_ride_def Let_def idle_iff_no_destination_def split: sum.splits)

text \<open>
  C2.  In every state a new driver reaches by a sequence of \<open>start_drive\<close>,
  \<open>start_ride\<close>, \<open>end_drive\<close> and \<open>end_ride\<close>, the idle flag is true exactly when no
  destination is pending.  The code at the new driver \<open>d1\<close>, which satisfies this: the
  one call \<open>start_drive\<close> towards (0,0) returns travel time 0 and leaves a driver that
  is idle and has the pending destination (0,0), a reachable state in which the
  equivalence does not hold.
\<close>

theorem start_drive_leaves_driver_idle:
  "idle_iff_no_destination d1
   \<and> start_drive d1 \<lparr>row = 0, column = 0\<rparr> =
       Inr (d1\<lparr>destination := Some \<lparr>row = 0, column = 0\<rparr>\<rparr>, 0)
   \<and> driver_steps d1 [StartDrive \<lparr>row = 0, column = 0\<rparr>] =
       Inr (d1\<lparr>destination := Some \<lparr>row = 0, column = 0\<rparr>\<rparr>)
   \<and> is_idle (d1\<lparr>destination := Some \<lparr>row = 0, column = 0\<rparr>\<rparr>) = True
   \<and> destination (d1\<lparr>destination := Some \<lparr>row = 0, column = 0\<rparr>\<rparr>) = Some \<lparr>row = 0, column = 0\<rparr>
   \<and> idle_iff_no_destination (d1\<lparr>destination := Some \<lparr>row = 0, column = 0\<rparr>\<rparr>) = False"
  by (simp add: obj_defs driver_defs idle_iff_no_destination_def)

text \<open>
  C5 does not hold of the code as it is stated: \<open>end_drive\<close> and \<open>end_ride\<close> on the
  new driver \<open>d1\<close>, which has no destination, return without a fault, and the driver
  they return has lost its location.
\<close>

theorem end_without_destination_returns:
  "destination d1 = None
   \<and> end_drive d1 = Inr (d1\<lparr>location := None\<rparr>)
   \<and> end_ride d1 = Inr (d1\<lparr>location := None\<rparr>)"
  by (simp add: obj_defs driver_defs)

text \<open>
  C5, amended.  On a driver whose pending destination is none, \<open>end_drive\<close> and
  \<open>end_ride\<close> raise no fault: they return, with the location set to none and the idle
  flag set to true; the destination stays none, the identifier and the speed stay as
  they were.
\<close>

theorem end_without_destination:
  assumes "destination self = None"
  shows "end_drive self = Inr (self\<lparr>location := None, is_idle := True\<rparr>)
       \<and> end_ride self = Inr (self\<lparr>location := None, is_idle := True\<rparr>)"
  using assms by (simp add: end_drive_def end_ride_def)

theorem end_without_destination_witness:
  "destination d2 = None
   \<and> end_drive d2 = Inr (d2\<lparr>location := None, is_idle := True\<rparr>)
   \<and> end_ride d2 = Inr (d2\<lparr>location := None, is_idle := True\<rparr>)"
proof -
  have h: "destination d2 = None" by (simp add: d2_def Driver_def)
  from end_without_destination [OF h] h show ?thesis by simp
qed

section \<open>The dispatcher reads three fields of a driver\<close>




section \<open>Events\<close>

lemma map_of_log_append:
  "map_of (log_append k a m) k = Some ((case map_of m k of None \<Rightarrow> [] | Some v \<Rightarrow> v) @ [a])"
  by (induction m) auto

text \<open>
  C4.  A Pickup whose rider is not waiting does not fail.  The driver's drive is ended:
  the driver is at what was its destination, has no destination and is idle, and the
  monitor has logged its arrival there.  The one event that follows is a DriverRequest
  for the same driver at the timestamp of the Pickup.  No rider is written, so the
  rider's status is what it was; the other drivers and the dispatcher are not touched
  either.
\<close>

theorem pickup_of_rider_not_waiting:
  assumes "status (rider_obj w r) \<noteq> WAITING"
  shows "\<exists>w'. do (Pickup t r d) w = Inr (w', [DriverRequest t d])
            \<and> w' = w\<lparr>driver_obj := (driver_obj w)(d := (driver_obj w d)
                          \<lparr>location := destination (driver_obj w d), destination := None,
                           is_idle := True\<rparr>),
                      mon := notify t DRIVER PICKUP (driver_id (driver_obj w d))
                               (destination (driver_obj w d)) (mon w)\<rparr>
            \<and> end_drive (driver_obj w d) = Inr (driver_obj w' d)
            \<and> location (driver_obj w' d) = destination (driver_obj w d)
            \<and> destination (driver_obj w' d) = None
            \<and> is_idle (driver_obj w' d) = True
            \<and> driver_id (driver_obj w' d) = driver_id (driver_obj w d)
            \<and> speed (driver_obj w' d) = speed (driver_obj w d)
            \<and> (driver_obj w')(d := driver_obj w d) = driver_obj w
            \<and> rider_obj w' = rider_obj w
            \<and> status (rider_obj w' r) = status (rider_obj w r)
            \<and> disp w' = disp w"
  using assms by (simp add: Pickup_do_def end_drive_def Let_def)

theorem pickup_of_rider_not_waiting_witness:
  "status (rider_obj w_cancelled 0) = CANCELLED
   \<and> location (driver_obj w_cancelled 0) = Some \<lparr>row = 0, column = 4\<rparr>
   \<and> destination (driver_obj w_cancelled 0) = Some \<lparr>row = 0, column = 0\<rparr>
   \<and> (\<exists>w'. do (Pickup 7 0 0) w_cancelled = Inr (w', [DriverRequest 7 0])
            \<and> location (driver_obj w' 0) = Some \<lparr>row = 0, column = 0\<rparr>
            \<and> destination (driver_obj w' 0) = None
            \<and> is_idle (driver_obj w' 0) = True
            \<and> driver_activities (mon w') =
                 [(''d1'', [\<lparr>descr = PICKUP, time = 7, activity_id = ''d1'',
                             activity_location = Some \<lparr>row = 0, column = 0\<rparr>\<rparr>])]
            \<and> rider_obj w' = rider_obj w_cancelled
            \<and> status (rider_obj w' 0) = CANCELLED
            \<and> disp w' = disp w_cancelled)"
proof -
  have h: "status (rider_obj w_cancelled 0) \<noteq> WAITING"
    by (simp add: w_cancelled_def)
  have f: "status (rider_obj w_cancelled 0) = CANCELLED"
    "location (driver_obj w_cancelled 0) = Some \<lparr>row = 0, column = 4\<rparr>"
    "destination (driver_obj w_cancelled 0) = Some \<lparr>row = 0, column = 0\<rparr>"
    "driver_id (driver_obj w_cancelled 0) = ''d1''"
    "driver_activities (mon w_cancelled) = []"
    by (simp_all add: w_cancelled_def obj_defs notify_def)
  from pickup_of_rider_not_waiting [OF h, of 7 0] obtain w' where
    r: "do (Pickup 7 0 0) w_cancelled = Inr (w', [DriverRequest 7 0])"
    and w': "w' = w_cancelled\<lparr>driver_obj := (driver_obj w_cancelled)(0 := (driver_obj w_cancelled 0)
                          \<lparr>location := destination (driver_obj w_cancelled 0), destination := None,
                           is_idle := True\<rparr>),
                      mon := notify 7 DRIVER PICKUP (driver_id (driver_obj w_cancelled 0))
                               (destination (driver_obj w_cancelled 0)) (mon w_cancelled)\<rparr>"
    and p: "location (driver_obj w' 0) = destination (driver_obj w_cancelled 0)"
      "destination (driver_obj w' 0) = None" "is_idle (driver_obj w' 0) = True"
      "rider_obj w' = rider_obj w_cancelled" "disp w' = disp w_cancelled"
    by blast
  from w' f have m: "driver_activities (mon w') =
                 [(''d1'', [\<lparr>descr = PICKUP, time = 7, activity_id = ''d1'',
                             activity_location = Some \<lparr>row = 0, column = 0\<rparr>\<rparr>])]"
    by (simp add: notify_def)
  from r p m f show ?thesis by auto
qed

text \<open>
  C7.  A Cancellation for a rider who is satisfied returns no event and the state it was
  given: the rider is still satisfied, every log of the monitor and both lists of the
  dispatcher are as they were.
\<close>

theorem cancellation_of_satisfied_rider:
  assumes "status (rider_obj w r) = SATISFIED"
  shows "do (Cancellation t r) w = Inr (w, [])"
  using assms by (simp add: Cancellation_do_def)

theorem cancellation_of_satisfied_rider_witness:
  "status (rider_obj w_satisfied 0) = SATISFIED
   \<and> do (Cancellation 6 0) w_satisfied = Inr (w_satisfied, [])"
proof -
  have h: "status (rider_obj w_satisfied 0) = SATISFIED"
    by (simp add: w_satisfied_def)
  from cancellation_of_satisfied_rider [OF h] h show ?thesis by simp
qed

text \<open>
  C10.  A Cancellation for a rider who is cancelled already is not a no-op.  It returns
  no event; the state it returns is the one \<open>cancel_ride\<close> makes of the state with one
  more CANCEL activity at the end of the rider's log, so the rider's log is longer by
  that activity and the state is not the one it was given; the waitlist is what the
  dispatcher's removal leaves of it; the rider's status is cancelled.
\<close>

theorem cancellation_of_cancelled_rider:
  assumes "status (rider_obj w r) = CANCELLED"
  shows "\<exists>w'. do (Cancellation t r) w = Inr (w', [])
     \<and> w' = cancel_ride (w\<lparr>mon := notify t RIDER CANCEL (rider_id (rider_obj w r))
                                    (Some (origin (rider_obj w r))) (mon w)\<rparr>) r
     \<and> map_of (rider_activities (mon w')) (rider_id (rider_obj w r)) =
         Some ((case map_of (rider_activities (mon w)) (rider_id (rider_obj w r)) of
                  None \<Rightarrow> [] | Some v \<Rightarrow> v)
               @ [\<lparr>descr = CANCEL, time = t, activity_id = rider_id (rider_obj w r),
                    activity_location = Some (origin (rider_obj w r))\<rparr>])
     \<and> w' \<noteq> w
     \<and> riders (disp w') =
         (if rider_in (rider_obj w) r (riders (disp w))
          then rider_remove (rider_obj w) r (riders (disp w)) else riders (disp w))
     \<and> status (rider_obj w' r) = CANCELLED"
proof -
  let ?w1 = "w\<lparr>mon := notify t RIDER CANCEL (rider_id (rider_obj w r))
                                    (Some (origin (rider_obj w r))) (mon w)\<rparr>"
  let ?w' = "cancel_ride ?w1 r"
  have same: "(rider_obj w)(r := (rider_obj w r)\<lparr>status := CANCELLED\<rparr>) = rider_obj w"
    using assms by (simp add: fun_upd_idem_iff)
  have run: "do (Cancellation t r) w = Inr (?w', [])"
    using assms by (simp add: Cancellation_do_def Let_def same)
  have m: "mon ?w' = mon ?w1" by (simp add: cancel_ride_def)
  have ro: "rider_obj ?w' = rider_obj w" by (simp add: cancel_ride_def)
  have wl: "riders (disp ?w') =
         (if rider_in (rider_obj w) r (riders (disp w))
          then rider_remove (rider_obj w) r (riders (disp w)) else riders (disp w))"
    by (simp add: cancel_ride_def)
  have log: "map_of (rider_activities (mon ?w')) (rider_id (rider_obj w r)) =
         Some ((case map_of (rider_activities (mon w)) (rider_id (rider_obj w r)) of
                  None \<Rightarrow> [] | Some v \<Rightarrow> v)
               @ [\<lparr>descr = CANCEL, time = t, activity_id = rider_id (rider_obj w r),
                    activity_location = Some (origin (rider_obj w r))\<rparr>])"
    unfolding m by (simp add: notify_def map_of_log_append)
  have "map_of (rider_activities (mon ?w')) (rider_id (rider_obj w r))
        \<noteq> map_of (rider_activities (mon w)) (rider_id (rider_obj w r))"
    unfolding log by (simp split: option.splits)
  then have ne: "?w' \<noteq> w" by metis
  from run log ne ro wl assms show ?thesis by simp
qed

theorem cancellation_of_cancelled_rider_witness:
  "status (rider_obj w_cancelled 0) = CANCELLED
   \<and> do (Cancellation 9 0) w_cancelled =
       Inr (w_cancelled\<lparr>mon := notify 9 RIDER CANCEL ''r1'' (Some \<lparr>row = 0, column = 0\<rparr>)
                                  (mon w_cancelled)\<rparr>, [])
   \<and> map_of (rider_activities (mon w_cancelled)) ''r1'' =
       Some [\<lparr>descr = REQUEST, time = 2, activity_id = ''r1'',
               activity_location = Some \<lparr>row = 0, column = 0\<rparr>\<rparr>,
             \<lparr>descr = CANCEL, time = 6, activity_id = ''r1'',
               activity_location = Some \<lparr>row = 0, column = 0\<rparr>\<rparr>]
   \<and> map_of (rider_activities (notify 9 RIDER CANCEL ''r1'' (Some \<lparr>row = 0, column = 0\<rparr>)
                                  (mon w_cancelled))) ''r1'' =
       Some [\<lparr>descr = REQUEST, time = 2, activity_id = ''r1'',
               activity_location = Some \<lparr>row = 0, column = 0\<rparr>\<rparr>,
             \<lparr>descr = CANCEL, time = 6, activity_id = ''r1'',
               activity_location = Some \<lparr>row = 0, column = 0\<rparr>\<rparr>,
             \<lparr>descr = CANCEL, time = 9, activity_id = ''r1'',
               activity_location = Some \<lparr>row = 0, column = 0\<rparr>\<rparr>]"
proof -
  have h: "status (rider_obj w_cancelled 0) = CANCELLED"
    by (simp add: w_cancelled_def)
  have c: "cancel_ride (w_cancelled\<lparr>mon := notify 9 RIDER CANCEL ''r1''
               (Some \<lparr>row = 0, column = 0\<rparr>) (mon w_cancelled)\<rparr>) 0
           = w_cancelled\<lparr>mon := notify 9 RIDER CANCEL ''r1''
               (Some \<lparr>row = 0, column = 0\<rparr>) (mon w_cancelled)\<rparr>"
    by (simp add: cancel_ride_def w_cancelled_def)
  have f: "rider_id (rider_obj w_cancelled 0) = ''r1''"
    "origin (rider_obj w_cancelled 0) = \<lparr>row = 0, column = 0\<rparr>"
    by (simp_all add: w_cancelled_def obj_defs)
  have l: "map_of (rider_activities (mon w_cancelled)) ''r1'' =
       Some [\<lparr>descr = REQUEST, time = 2, activity_id = ''r1'',
               activity_location = Some \<lparr>row = 0, column = 0\<rparr>\<rparr>,
             \<lparr>descr = CANCEL, time = 6, activity_id = ''r1'',
               activity_location = Some \<lparr>row = 0, column = 0\<rparr>\<rparr>]"
    by (simp add: w_cancelled_def notify_def Monitor_def)
  from cancellation_of_cancelled_rider [OF h, of 9] obtain w' where
    "do (Cancellation 9 0) w_cancelled = Inr (w', [])"
    "w' = cancel_ride (w_cancelled\<lparr>mon := notify 9 RIDER CANCEL (rider_id (rider_obj w_cancelled 0))
                                    (Some (origin (rider_obj w_cancelled 0))) (mon w_cancelled)\<rparr>) 0"
    "map_of (rider_activities (mon w')) (rider_id (rider_obj w_cancelled 0)) =
         Some ((case map_of (rider_activities (mon w_cancelled)) (rider_id (rider_obj w_cancelled 0)) of
                  None \<Rightarrow> [] | Some v \<Rightarrow> v)
               @ [\<lparr>descr = CANCEL, time = 9, activity_id = rider_id (rider_obj w_cancelled 0),
                    activity_location = Some (origin (rider_obj w_cancelled 0))\<rparr>])"
    by blast
  with h c f l show ?thesis by simp
qed

section \<open>The dispatcher's choice of a driver\<close>

lemma loop_no_idle:
  "\<forall>d\<in>set ds. \<not> is_idle (h d) \<Longrightarrow> request_driver_loop h org ds m drv = Inr drv"
  by (induction ds arbitrary: m drv) simp_all

lemma loop_no_fault:
  "\<forall>d\<in>set ds. is_idle (h d) \<longrightarrow> located_within_range (h d) org \<and> speed (h d) \<noteq> 0
   \<Longrightarrow> \<exists>res. request_driver_loop h org ds m drv = Inr res"
proof (induction ds arbitrary: m drv)
  case Nil
  show ?case by simp
next
  case (Cons d ds)
  show ?case
  proof (cases "is_idle (h d)")
    case False
    with Cons show ?thesis by simp
  next
    case True
    with Cons.prems have "located_within_range (h d) org" "speed (h d) \<noteq> 0" by simp_all
    from get_travel_time_in_range [OF this] obtain t where
      t: "get_travel_time (h d) org = Inr t" by blast
    from Cons.prems have rest:
      "\<forall>d\<in>set ds. is_idle (h d) \<longrightarrow> located_within_range (h d) org \<and> speed (h d) \<noteq> 0"
      by simp
    from True t Cons.IH [OF rest] show ?thesis by simp
  qed
qed

lemma loop_running_minimum:
  assumes "\<forall>d\<in>set ds. is_idle (h d) \<longrightarrow> located_within_range (h d) org \<and> 0 < speed (h d)"
      and "0 \<le> m"
  shows "(request_driver_loop h org ds m drv = Inr drv
            \<and> (\<forall>x\<in>set ds. is_idle (h x) \<longrightarrow> m \<le> floor_travel_time (h x) org))
       \<or> (\<exists>pre a post. ds = pre @ a # post
            \<and> request_driver_loop h org ds m drv = Inr (Some a)
            \<and> is_idle (h a) \<and> floor_travel_time (h a) org < m
            \<and> (\<forall>x\<in>set pre. is_idle (h x) \<longrightarrow> floor_travel_time (h a) org < floor_travel_time (h x) org)
            \<and> (\<forall>x\<in>set post. is_idle (h x) \<longrightarrow> floor_travel_time (h a) org \<le> floor_travel_time (h x) org))"
  using assms
proof (induction ds arbitrary: m drv)
  case Nil
  show ?case by simp
next
  case (Cons d ds)
  let ?T = "\<lambda>x. floor_travel_time (h x) org"
  from Cons.prems(1) have rest: "\<forall>d\<in>set ds. is_idle (h d) \<longrightarrow> located_within_range (h d) org \<and> 0 < speed (h d)"
    by simp
  from Cons.prems(2) have m1: "m \<noteq> - 1" by simp
  show ?case
  proof (cases "is_idle (h d)")
    case False
    then have step: "request_driver_loop h org (d # ds) m drv = request_driver_loop h org ds m drv"
      by simp
    from Cons.IH [OF rest Cons.prems(2), of drv] show ?thesis
    proof (elim disjE exE conjE)
      assume "request_driver_loop h org ds m drv = Inr drv"
        and "\<forall>x\<in>set ds. is_idle (h x) \<longrightarrow> m \<le> ?T x"
      with False step show ?thesis by simp
    next
      fix pre a post
      assume d: "ds = pre @ a # post" and "request_driver_loop h org ds m drv = Inr (Some a)"
        and "is_idle (h a)" and "?T a < m"
        and "\<forall>x\<in>set pre. is_idle (h x) \<longrightarrow> ?T a < ?T x"
        and "\<forall>x\<in>set post. is_idle (h x) \<longrightarrow> ?T a \<le> ?T x"
      with False step have "d # ds = (d # pre) @ a # post
            \<and> request_driver_loop h org (d # ds) m drv = Inr (Some a)
            \<and> is_idle (h a) \<and> ?T a < m
            \<and> (\<forall>x\<in>set (d # pre). is_idle (h x) \<longrightarrow> ?T a < ?T x)
            \<and> (\<forall>x\<in>set post. is_idle (h x) \<longrightarrow> ?T a \<le> ?T x)"
        by simp
      then show ?thesis by blast
    qed
  next
    case True
    with Cons.prems(1) have wf: "located_within_range (h d) org" "0 < speed (h d)" by simp_all
    note g = get_travel_time_floor(1,2) [OF wf]
    show ?thesis
    proof (cases "m > ?T d")
      case False
      with True m1 g have step:
        "request_driver_loop h org (d # ds) m drv = request_driver_loop h org ds m drv"
        by simp
      from Cons.IH [OF rest Cons.prems(2), of drv] show ?thesis
      proof (elim disjE exE conjE)
        assume "request_driver_loop h org ds m drv = Inr drv"
          and "\<forall>x\<in>set ds. is_idle (h x) \<longrightarrow> m \<le> ?T x"
        with False step show ?thesis by simp
      next
        fix pre a post
        assume d: "ds = pre @ a # post" and "request_driver_loop h org ds m drv = Inr (Some a)"
          and "is_idle (h a)" and "?T a < m"
          and "\<forall>x\<in>set pre. is_idle (h x) \<longrightarrow> ?T a < ?T x"
          and "\<forall>x\<in>set post. is_idle (h x) \<longrightarrow> ?T a \<le> ?T x"
        with False step have "d # ds = (d # pre) @ a # post
            \<and> request_driver_loop h org (d # ds) m drv = Inr (Some a)
            \<and> is_idle (h a) \<and> ?T a < m
            \<and> (\<forall>x\<in>set (d # pre). is_idle (h x) \<longrightarrow> ?T a < ?T x)
            \<and> (\<forall>x\<in>set post. is_idle (h x) \<longrightarrow> ?T a \<le> ?T x)"
          by simp
        then show ?thesis by blast
      qed
    next
      case less: True
      with True m1 g have step:
        "request_driver_loop h org (d # ds) m drv = request_driver_loop h org ds (?T d) (Some d)"
        by simp
      from Cons.IH [OF rest g(2), of "Some d"] show ?thesis
      proof (elim disjE exE conjE)
        assume "request_driver_loop h org ds (?T d) (Some d) = Inr (Some d)"
          and "\<forall>x\<in>set ds. is_idle (h x) \<longrightarrow> ?T d \<le> ?T x"
        with True less step have "d # ds = [] @ d # ds
            \<and> request_driver_loop h org (d # ds) m drv = Inr (Some d)
            \<and> is_idle (h d) \<and> ?T d < m
            \<and> (\<forall>x\<in>set []. is_idle (h x) \<longrightarrow> ?T d < ?T x)
            \<and> (\<forall>x\<in>set ds. is_idle (h x) \<longrightarrow> ?T d \<le> ?T x)"
          by simp
        then show ?thesis by blast
      next
        fix pre a post
        assume d: "ds = pre @ a # post"
          and "request_driver_loop h org ds (?T d) (Some d) = Inr (Some a)"
          and "is_idle (h a)" and "?T a < ?T d"
          and "\<forall>x\<in>set pre. is_idle (h x) \<longrightarrow> ?T a < ?T x"
          and "\<forall>x\<in>set post. is_idle (h x) \<longrightarrow> ?T a \<le> ?T x"
        with less step have "d # ds = (d # pre) @ a # post
            \<and> request_driver_loop h org (d # ds) m drv = Inr (Some a)
            \<and> is_idle (h a) \<and> ?T a < m
            \<and> (\<forall>x\<in>set (d # pre). is_idle (h x) \<longrightarrow> ?T a < ?T x)
            \<and> (\<forall>x\<in>set post. is_idle (h x) \<longrightarrow> ?T a \<le> ?T x)"
          by simp
        then show ?thesis by blast
      qed
    qed
  qed
qed

lemma loop_first_minimum:
  assumes "\<forall>d\<in>set ds. is_idle (h d) \<longrightarrow> located_within_range (h d) org \<and> 0 < speed (h d)"
      and "\<exists>d\<in>set ds. is_idle (h d)"
  shows "\<exists>pre a post. ds = pre @ a # post
            \<and> request_driver_loop h org ds (- 1) None = Inr (Some a)
            \<and> is_idle (h a)
            \<and> (\<forall>x\<in>set pre. is_idle (h x) \<longrightarrow> floor_travel_time (h a) org < floor_travel_time (h x) org)
            \<and> (\<forall>x\<in>set post. is_idle (h x) \<longrightarrow> floor_travel_time (h a) org \<le> floor_travel_time (h x) org)"
  using assms
proof (induction ds)
  case Nil
  then show ?case by simp
next
  case (Cons d ds)
  let ?T = "\<lambda>x. floor_travel_time (h x) org"
  from Cons.prems(1) have rest: "\<forall>d\<in>set ds. is_idle (h d) \<longrightarrow> located_within_range (h d) org \<and> 0 < speed (h d)"
    by simp
  show ?case
  proof (cases "is_idle (h d)")
    case False
    then have step: "request_driver_loop h org (d # ds) (- 1) None
                     = request_driver_loop h org ds (- 1) None"
      by simp
    from False Cons.prems(2) have "\<exists>d\<in>set ds. is_idle (h d)" by simp
    from Cons.IH [OF rest this] obtain pre a post where
      "ds = pre @ a # post" "request_driver_loop h org ds (- 1) None = Inr (Some a)"
      "is_idle (h a)" "\<forall>x\<in>set pre. is_idle (h x) \<longrightarrow> ?T a < ?T x"
      "\<forall>x\<in>set post. is_idle (h x) \<longrightarrow> ?T a \<le> ?T x"
      by blast
    with False step have "d # ds = (d # pre) @ a # post
            \<and> request_driver_loop h org (d # ds) (- 1) None = Inr (Some a)
            \<and> is_idle (h a)
            \<and> (\<forall>x\<in>set (d # pre). is_idle (h x) \<longrightarrow> ?T a < ?T x)
            \<and> (\<forall>x\<in>set post. is_idle (h x) \<longrightarrow> ?T a \<le> ?T x)"
      by simp
    then show ?thesis by blast
  next
    case True
    with Cons.prems(1) have wf: "located_within_range (h d) org" "0 < speed (h d)" by simp_all
    note g = get_travel_time_floor(1,2) [OF wf]
    from True g have step:
      "request_driver_loop h org (d # ds) (- 1) None = request_driver_loop h org ds (?T d) (Some d)"
      by simp
    from loop_running_minimum [OF rest g(2), of "Some d"] show ?thesis
    proof (elim disjE exE conjE)
      assume "request_driver_loop h org ds (?T d) (Some d) = Inr (Some d)"
        and "\<forall>x\<in>set ds. is_idle (h x) \<longrightarrow> ?T d \<le> ?T x"
      with True step have "d # ds = [] @ d # ds
            \<and> request_driver_loop h org (d # ds) (- 1) None = Inr (Some d)
            \<and> is_idle (h d)
            \<and> (\<forall>x\<in>set []. is_idle (h x) \<longrightarrow> ?T d < ?T x)
            \<and> (\<forall>x\<in>set ds. is_idle (h x) \<longrightarrow> ?T d \<le> ?T x)"
        by simp
      then show ?thesis by blast
    next
      fix pre a post
      assume "ds = pre @ a # post"
        and "request_driver_loop h org ds (?T d) (Some d) = Inr (Some a)"
        and "is_idle (h a)" and "?T a < ?T d"
        and "\<forall>x\<in>set pre. is_idle (h x) \<longrightarrow> ?T a < ?T x"
        and "\<forall>x\<in>set post. is_idle (h x) \<longrightarrow> ?T a \<le> ?T x"
      with step have "d # ds = (d # pre) @ a # post
            \<and> request_driver_loop h org (d # ds) (- 1) None = Inr (Some a)
            \<and> is_idle (h a)
            \<and> (\<forall>x\<in>set (d # pre). is_idle (h x) \<longrightarrow> ?T a < ?T x)
            \<and> (\<forall>x\<in>set post. is_idle (h x) \<longrightarrow> ?T a \<le> ?T x)"
        by simp
      then show ?thesis by blast
    qed
  qed
qed


text \<open>
  C3 does not hold of the code as it is stated.  For the rider \<open>2 ^ 53 + 1\<close> rows from
  the idle driver \<open>dp\<close> and \<open>2 ^ 53\<close> rows from the idle driver \<open>dq\<close>, both of speed 1,
  the floor of distance by speed is least for \<open>dq\<close>, and \<open>request_driver\<close> returns \<open>dp\<close>:
  both doubles are \<open>2 ^ 53\<close>.  And the run of \<open>lost_events\<close> ends with the registered
  driver idle and without a location; with such a driver \<open>request_driver\<close> returns no
  driver but faults.
\<close>

theorem request_driver_not_nearest:
  "drivers (disp w_far) = [0, 1]
   \<and> is_idle (driver_obj w_far 0) = True \<and> is_idle (driver_obj w_far 1) = True
   \<and> floor_travel_time (driver_obj w_far 0) (origin (rider_obj w_far 0)) = 2 ^ 53 + 1
   \<and> floor_travel_time (driver_obj w_far 1) (origin (rider_obj w_far 0)) = 2 ^ 53
   \<and> get_travel_time (driver_obj w_far 0) (origin (rider_obj w_far 0)) = Inr (2 ^ 53)
   \<and> get_travel_time (driver_obj w_far 1) (origin (rider_obj w_far 0)) = Inr (2 ^ 53)
   \<and> request_driver w_far 0 = Inr (w_far, Some 0)
   \<and> map_option (map_sum id (\<lambda>w. (driver_obj w 0, drivers (disp w))))
        (run_loop True w_start (add_all True lost_events [])) = Some (Inr (dl_end, [0]))
   \<and> drivers (disp w_lost) = [0]
   \<and> driver_obj w_lost 0 = dl_end
   \<and> is_idle dl_end = True \<and> location dl_end = None
   \<and> request_driver w_lost 0 = Inl AttributeError"
proof -
  have o: "origin (rider_obj w_far 0) = \<lparr>row = 2 ^ 53 + 1, column = 0\<rparr>"
    "driver_obj w_far 0 = dp" "driver_obj w_far (Suc 0) = dq" "drivers (disp w_far) = [0, 1]"
    by (simp_all add: w_far_def obj_defs)
  have t: "int_truediv (2 ^ 53 + 1) 1 = Inr (2 ^ 53)" "int_truediv (2 ^ 53) 1 = Inr (2 ^ 53)"
    by (simp_all add: int_truediv_def float_exponent_def round_half_even_def compute_bitlen)
  have g: "get_travel_time dp \<lparr>row = 2 ^ 53 + 1, column = 0\<rparr> = Inr (2 ^ 53)"
    "get_travel_time dq \<lparr>row = 2 ^ 53 + 1, column = 0\<rparr> = Inr (2 ^ 53)"
    using t by (simp_all add: get_travel_time_def obj_defs manhattan_distance_def)
  have f: "floor_travel_time dp \<lparr>row = 2 ^ 53 + 1, column = 0\<rparr> = 2 ^ 53 + 1"
    "floor_travel_time dq \<lparr>row = 2 ^ 53 + 1, column = 0\<rparr> = 2 ^ 53"
    by (simp_all add: floor_travel_time_def obj_defs manhattan_distance_def)
  have i: "is_idle dp" "is_idle dq" by (simp_all add: obj_defs)
  have q: "request_driver w_far 0 = Inr (w_far, Some 0)"
    using g i by (simp add: request_driver_def o)
  have r: "map_option (map_sum id (\<lambda>w. (driver_obj w 0, drivers (disp w))))
        (run_loop True w_start (add_all True lost_events [])) = Some (Inr (dl_end, [0]))"
    by (simp add: w_start_def lost_events_def run_loop.simps obj_defs driver_defs event_defs)
  have l: "drivers (disp w_lost) = [0]" "driver_obj w_lost 0 = dl_end"
    "is_idle dl_end = True" "location dl_end = None"
    by (simp_all add: w_lost_def obj_defs)
  have a: "request_driver w_lost 0 = Inl AttributeError"
    by (simp add: request_driver_def get_travel_time_def l)
  from o f g i q r l a show ?thesis by simp
qed

text \<open>
  C3, amended.  When the list of registered drivers is not empty, a registered driver is
  idle, and every idle registered driver has a location less than \<open>2 ^ 53\<close> away from
  the rider's origin and a speed greater than 0, \<open>request_driver\<close> returns a registered
  idle driver whose travel time to the rider's origin, the floor of the distance divided
  by the speed, is strictly less than that of every idle driver registered before it and
  at most that of every idle driver registered after it: a driver of minimal travel
  time, and the first of them in registration order.
\<close>

theorem request_driver_nearest_idle:
  assumes "drivers (disp w) \<noteq> []"
      and "\<exists>d\<in>set (drivers (disp w)). is_idle (driver_obj w d)"
      and "\<forall>d\<in>set (drivers (disp w)). is_idle (driver_obj w d) \<longrightarrow>
             located_within_range (driver_obj w d) (origin (rider_obj w r))
             \<and> 0 < speed (driver_obj w d)"
  shows "\<exists>pre a post.
           drivers (disp w) = pre @ a # post
         \<and> request_driver w r = Inr (w, Some a)
         \<and> is_idle (driver_obj w a)
         \<and> get_travel_time (driver_obj w a) (origin (rider_obj w r)) =
             Inr (floor_travel_time (driver_obj w a) (origin (rider_obj w r)))
         \<and> (\<forall>x\<in>set pre. is_idle (driver_obj w x) \<longrightarrow>
               floor_travel_time (driver_obj w a) (origin (rider_obj w r))
                 < floor_travel_time (driver_obj w x) (origin (rider_obj w r)))
         \<and> (\<forall>x\<in>set post. is_idle (driver_obj w x) \<longrightarrow>
               floor_travel_time (driver_obj w a) (origin (rider_obj w r))
                 \<le> floor_travel_time (driver_obj w x) (origin (rider_obj w r)))"
proof -
  let ?org = "origin (rider_obj w r)"
  from loop_first_minimum [OF assms(3) assms(2)] obtain pre a post where
    d: "drivers (disp w) = pre @ a # post"
    and l: "request_driver_loop (driver_obj w) ?org (drivers (disp w)) (- 1) None = Inr (Some a)"
    and i: "is_idle (driver_obj w a)"
    and b: "\<forall>x\<in>set pre. is_idle (driver_obj w x) \<longrightarrow>
               floor_travel_time (driver_obj w a) ?org < floor_travel_time (driver_obj w x) ?org"
    and c: "\<forall>x\<in>set post. is_idle (driver_obj w x) \<longrightarrow>
               floor_travel_time (driver_obj w a) ?org \<le> floor_travel_time (driver_obj w x) ?org"
    by blast
  from assms(1) l have q: "request_driver w r = Inr (w, Some a)"
    by (simp add: request_driver_def)
  from d have "a \<in> set (drivers (disp w))" by simp
  with assms(3) i have "located_within_range (driver_obj w a) ?org" "0 < speed (driver_obj w a)"
    by blast+
  from get_travel_time_floor(1) [OF this]
  have g: "get_travel_time (driver_obj w a) ?org = Inr (floor_travel_time (driver_obj w a) ?org)" .
  from d q i g b c show ?thesis by blast
qed

theorem request_driver_nearest_idle_witness:
  "drivers (disp w_four) = [0, 1, 2, 3]
   \<and> map (\<lambda>d. is_idle (driver_obj w_four d)) [0, 1, 2, 3] = [False, True, True, True]
   \<and> map (\<lambda>d. speed (driver_obj w_four d)) [1, 2, 3] = [20, 5, 5]
   \<and> map (\<lambda>d. location (driver_obj w_four d)) [1, 2, 3] =
        [Some \<lparr>row = 31, column = 29\<rparr>, Some \<lparr>row = 0, column = 3\<rparr>, Some \<lparr>row = 4, column = 0\<rparr>]
   \<and> request_driver w_four 0 = Inr (w_four, Some 2)
   \<and> floor_travel_time (driver_obj w_four 1) (origin (rider_obj w_four 0)) = 3
   \<and> floor_travel_time (driver_obj w_four 2) (origin (rider_obj w_four 0)) = 0
   \<and> floor_travel_time (driver_obj w_four 3) (origin (rider_obj w_four 0)) = 0
   \<and> (\<exists>pre post. drivers (disp w_four) = pre @ 2 # post
         \<and> (\<forall>x\<in>set pre. is_idle (driver_obj w_four x) \<longrightarrow>
               floor_travel_time (driver_obj w_four 2) (origin (rider_obj w_four 0))
                 < floor_travel_time (driver_obj w_four x) (origin (rider_obj w_four 0)))
         \<and> (\<forall>x\<in>set post. is_idle (driver_obj w_four x) \<longrightarrow>
               floor_travel_time (driver_obj w_four 2) (origin (rider_obj w_four 0))
                 \<le> floor_travel_time (driver_obj w_four x) (origin (rider_obj w_four 0))))"
proof -
  have h1: "drivers (disp w_four) \<noteq> []" by (simp add: w_four_def)
  have h2: "\<exists>d\<in>set (drivers (disp w_four)). is_idle (driver_obj w_four d)"
    by (simp add: w_four_def obj_defs)
  have h3: "\<forall>d\<in>set (drivers (disp w_four)). is_idle (driver_obj w_four d) \<longrightarrow>
         located_within_range (driver_obj w_four d) (origin (rider_obj w_four 0))
         \<and> 0 < speed (driver_obj w_four d)"
    by (simp add: w_four_def obj_defs located_within_range_def manhattan_distance_def)
  have q: "request_driver w_four 0 = Inr (w_four, Some 2)"
    by (simp add: w_four_def obj_defs request_driver_def driver_defs)
  have f: "floor_travel_time (driver_obj w_four 1) (origin (rider_obj w_four 0)) = 3"
    "floor_travel_time (driver_obj w_four 2) (origin (rider_obj w_four 0)) = 0"
    "floor_travel_time (driver_obj w_four 3) (origin (rider_obj w_four 0)) = 0"
    by (simp_all add: w_four_def obj_defs floor_travel_time_def manhattan_distance_def)
  from request_driver_nearest_idle [OF h1 h2 h3] obtain pre a post where
    "drivers (disp w_four) = pre @ a # post"
    "request_driver w_four 0 = Inr (w_four, Some a)"
    "\<forall>x\<in>set pre. is_idle (driver_obj w_four x) \<longrightarrow>
               floor_travel_time (driver_obj w_four a) (origin (rider_obj w_four 0))
                 < floor_travel_time (driver_obj w_four x) (origin (rider_obj w_four 0))"
    "\<forall>x\<in>set post. is_idle (driver_obj w_four x) \<longrightarrow>
               floor_travel_time (driver_obj w_four a) (origin (rider_obj w_four 0))
                 \<le> floor_travel_time (driver_obj w_four x) (origin (rider_obj w_four 0))"
    by blast
  moreover from this(2) q have "a = 2" by simp
  ultimately have "\<exists>pre post. drivers (disp w_four) = pre @ 2 # post
         \<and> (\<forall>x\<in>set pre. is_idle (driver_obj w_four x) \<longrightarrow>
               floor_travel_time (driver_obj w_four 2) (origin (rider_obj w_four 0))
                 < floor_travel_time (driver_obj w_four x) (origin (rider_obj w_four 0)))
         \<and> (\<forall>x\<in>set post. is_idle (driver_obj w_four x) \<longrightarrow>
               floor_travel_time (driver_obj w_four 2) (origin (rider_obj w_four 0))
                 \<le> floor_travel_time (driver_obj w_four x) (origin (rider_obj w_four 0)))"
    by blast
  moreover have "drivers (disp w_four) = [0, 1, 2, 3]"
    "map (\<lambda>d. is_idle (driver_obj w_four d)) [0, 1, 2, 3] = [False, True, True, True]"
    "map (\<lambda>d. speed (driver_obj w_four d)) [1, 2, 3] = [20, 5, 5]"
    "map (\<lambda>d. location (driver_obj w_four d)) [1, 2, 3] =
        [Some \<lparr>row = 31, column = 29\<rparr>, Some \<lparr>row = 0, column = 3\<rparr>, Some \<lparr>row = 4, column = 0\<rparr>]"
    by (simp_all add: w_four_def obj_defs)
  ultimately show ?thesis using q f by blast
qed

text \<open>
  C6.  \<open>request_driver\<close> puts the rider at the end of the waitlist and returns none when
  no driver is registered.  When a driver is registered, the state it returns is the
  state it was given, so the waitlist is not extended; it returns none when no
  registered driver is idle.  Whenever it returns, every driver, every rider, the
  list of registered drivers and the monitor are as before, and the waitlist has been
  extended by the rider exactly when no driver was registered.  It returns whenever
  every idle registered driver has a location less than \<open>2 ^ 53\<close> away from the rider's
  origin and a speed other than 0.
\<close>

theorem request_driver_frame:
  "(drivers (disp w) = [] \<longrightarrow>
      request_driver w r = Inr (w\<lparr>disp := (disp w)\<lparr>riders := riders (disp w) @ [r]\<rparr>\<rparr>, None))
   \<and> (drivers (disp w) \<noteq> [] \<and> (\<forall>d\<in>set (drivers (disp w)). \<not> is_idle (driver_obj w d)) \<longrightarrow>
        request_driver w r = Inr (w, None))
   \<and> (drivers (disp w) \<noteq> [] \<and> request_driver w r = Inr (w', drv) \<longrightarrow> w' = w)
   \<and> (request_driver w r = Inr (w', drv) \<longrightarrow>
        driver_obj w' = driver_obj w \<and> rider_obj w' = rider_obj w
        \<and> drivers (disp w') = drivers (disp w) \<and> mon w' = mon w
        \<and> (riders (disp w') = riders (disp w) @ [r] \<longleftrightarrow> drivers (disp w) = []))
   \<and> ((\<forall>d\<in>set (drivers (disp w)). is_idle (driver_obj w d) \<longrightarrow>
           located_within_range (driver_obj w d) (origin (rider_obj w r))
           \<and> speed (driver_obj w d) \<noteq> 0) \<longrightarrow>
        (\<exists>w'' drv'. request_driver w r = Inr (w'', drv')))"
proof (intro conjI impI)
  assume "drivers (disp w) = []"
  then show "request_driver w r = Inr (w\<lparr>disp := (disp w)\<lparr>riders := riders (disp w) @ [r]\<rparr>\<rparr>, None)"
    by (simp add: request_driver_def)
next
  assume "drivers (disp w) \<noteq> [] \<and> (\<forall>d\<in>set (drivers (disp w)). \<not> is_idle (driver_obj w d))"
  then show "request_driver w r = Inr (w, None)"
    by (simp add: request_driver_def loop_no_idle)
next
  assume "drivers (disp w) \<noteq> [] \<and> request_driver w r = Inr (w', drv)"
  then show "w' = w"
    by (auto simp: request_driver_def split: sum.splits)
next
  assume q: "request_driver w r = Inr (w', drv)"
  show "driver_obj w' = driver_obj w" "rider_obj w' = rider_obj w"
    "drivers (disp w') = drivers (disp w)" "mon w' = mon w"
    "riders (disp w') = riders (disp w) @ [r] \<longleftrightarrow> drivers (disp w) = []"
    using q by (auto simp: request_driver_def split: sum.splits if_splits)
next
  assume "\<forall>d\<in>set (drivers (disp w)). is_idle (driver_obj w d) \<longrightarrow>
           located_within_range (driver_obj w d) (origin (rider_obj w r))
           \<and> speed (driver_obj w d) \<noteq> 0"
  from loop_no_fault [OF this, of "- 1" None]
  show "\<exists>w'' drv'. request_driver w r = Inr (w'', drv')"
    by (auto simp: request_driver_def)
qed

theorem request_driver_frame_witness:
  "drivers (disp w_new) = []
   \<and> request_driver w_new 0 = Inr (w_new\<lparr>disp := \<lparr>drivers = [], riders = [0]\<rparr>\<rparr>, None)
   \<and> drivers (disp w_busy) = [0]
   \<and> is_idle (driver_obj w_busy 0) = False
   \<and> request_driver w_busy 0 = Inr (w_busy, None)
   \<and> riders (disp w_busy) = []
   \<and> drivers (disp w_registered) \<noteq> []
   \<and> request_driver w_registered 0 = Inr (w_registered, Some 0)
   \<and> riders (disp w_registered) \<noteq> riders (disp w_registered) @ [0]"
proof -
  have n: "drivers (disp w_new) = []" by (simp add: w_new_def Dispatcher_def)
  have n': "w_new\<lparr>disp := (disp w_new)\<lparr>riders := riders (disp w_new) @ [0]\<rparr>\<rparr>
            = w_new\<lparr>disp := \<lparr>drivers = [], riders = [0]\<rparr>\<rparr>"
    by (simp add: w_new_def Dispatcher_def)
  from n request_driver_frame [of w_new 0]
  have a: "request_driver w_new 0 = Inr (w_new\<lparr>disp := \<lparr>drivers = [], riders = [0]\<rparr>\<rparr>, None)"
    unfolding n' by blast
  have b: "drivers (disp w_busy) \<noteq> []"
    "\<forall>d\<in>set (drivers (disp w_busy)). \<not> is_idle (driver_obj w_busy d)"
    "riders (disp w_busy) = []"
    by (simp_all add: w_busy_def obj_defs)
  from b request_driver_frame [of w_busy 0]
  have c: "request_driver w_busy 0 = Inr (w_busy, None)" by blast
  have r: "drivers (disp w_registered) \<noteq> []"
    by (simp add: w_registered_def)
  have "\<forall>d\<in>set (drivers (disp w_registered)). is_idle (driver_obj w_registered d) \<longrightarrow>
           located_within_range (driver_obj w_registered d) (origin (rider_obj w_registered 0))
           \<and> speed (driver_obj w_registered d) \<noteq> 0"
    by (simp add: w_registered_def w_new_def obj_defs located_within_range_def
          manhattan_distance_def)
  with request_driver_frame [of w_registered 0] obtain w'' drv' where
    q: "request_driver w_registered 0 = Inr (w'', drv')" by blast
  with r request_driver_frame [of w_registered 0 w'' drv'] have "w'' = w_registered"
    and "riders (disp w'') = riders (disp w_registered) @ [0] \<longleftrightarrow> drivers (disp w_registered) = []"
    by blast+
  with r have e: "riders (disp w_registered) \<noteq> riders (disp w_registered) @ [0]" by simp
  have "request_driver w_registered 0 = Inr (w_registered, Some 0)"
    by (simp add: w_registered_def w_new_def obj_defs request_driver_def driver_defs)
  moreover have "drivers (disp w_busy) = [0]" "is_idle (driver_obj w_busy 0) = False"
    by (simp_all add: w_busy_def obj_defs)
  ultimately show ?thesis using n a b(3) c r e by simp
qed

section \<open>The report\<close>














end
